theory Spec2Isabelle
  imports Complex_Main "HOL-Library.Multiset"
begin

section \<open>The pendulum chain of \<^verbatim>\<open>main.py\<close>\<close>

text \<open>
  The program keeps a list of ball sprites (\<^verbatim>\<open>MyView.balls\<close>), the first of which is the
  static centre pin, and joins neighbouring balls by pin joints that live in the space of
  the physics engine. Sprites, bodies and joints are Python objects with identity, and
  \<^verbatim>\<open>join_balls\<close> mutates a sprite that is also reachable from the list, so the sprites live
  in an explicit store indexed by references.

  The rigid-body engine and the renderer are external. Of the engine the model keeps what
  the handlers read and write: the dictionary from sprites to their bodies, the bodies and
  the joints held by the space. Radius, colour, friction, velocity and angle are floating
  point values that no handler branches on; they are left out.
\<close>

subsection \<open>Constants\<close>

definition WINDOW_HEIGHT :: real where
  "WINDOW_HEIGHT = 600"

definition WINDOW_WIDTH :: real where
  "WINDOW_WIDTH = 800"

definition TRACE_LENGTH :: nat where
  "TRACE_LENGTH = 4000"

subsection \<open>Objects\<close>

type_synonym pos = "real \<times> real"

type_synonym sprite_ref = nat

text \<open>
  \<^verbatim>\<open>add_sprite\<close> creates one body for each sprite and a sprite is added once, in
  \<^verbatim>\<open>Ball.__init__\<close>; the body created for the sprite \<open>r\<close> is \<open>BodyOf r\<close>.
\<close>

datatype body_ref = BodyOf sprite_ref

datatype body_type = DYNAMIC | STATIC

datatype mouse_button = MOUSE_BUTTON_LEFT | MOUSE_BUTTON_MIDDLE | MOUSE_BUTTON_RIGHT
  | MOUSE_BUTTON_OTHER

text \<open>
  The exceptions a handler can end in: the \<^verbatim>\<open>assert\<close> of \<^verbatim>\<open>create_balls\<close> and the one of
  the space when a joint that it does not hold is removed, \<^verbatim>\<open>list.index\<close> of an absent
  element and \<^verbatim>\<open>math.sqrt\<close> of a negative mass, a sprite that the engine does not know, an
  index out of range, an integer too large for a float, and the exception of
  \<^verbatim>\<open>space.remove\<close> for an argument that is no body, shape or joint (\<^verbatim>\<open>None\<close>).
\<close>

datatype error = AssertionError | ValueError | KeyError | IndexError | OverflowError
  | UnsupportedType

text \<open>A \<^verbatim>\<open>pymunk.PinJoint\<close>: its identity and its two bodies \<^verbatim>\<open>a\<close> and \<^verbatim>\<open>b\<close>.\<close>

record pin_joint =
  cid :: nat
  joint_a :: body_ref
  joint_b :: body_ref

text \<open>A \<^verbatim>\<open>Ball\<close> sprite.\<close>

record ball =
  position :: pos
  constraint :: "pin_joint option"
  traces :: "pos list"

text \<open>A \<^verbatim>\<open>pymunk.Body\<close>: the mass and body type given to \<^verbatim>\<open>add_sprite\<close>, and its position.\<close>

record body =
  mass :: int
  body_type :: body_type
  body_position :: pos

text \<open>
  The \<^verbatim>\<open>PymunkPhysicsEngine\<close>: \<^verbatim>\<open>sprites\<close> maps a sprite to the body of its physics object,
  \<open>space_bodies\<close> and \<open>space_constraints\<close> are what the space holds.
\<close>

record physics_engine =
  sprites :: "sprite_ref \<Rightarrow> body_ref option"
  body_objs :: "body_ref \<Rightarrow> body"
  space_bodies :: "body_ref list"
  space_constraints :: "pin_joint list"

text \<open>
  \<^verbatim>\<open>MyView\<close>. \<open>sprite_objs\<close> is the store of the \<^verbatim>\<open>Ball\<close> objects, \<open>next_sprite\<close> and
  \<open>next_cid\<close> are the next unused sprite reference and joint identity; \<open>col_detector\<close>
  is the position of the one-pixel collision sprite.
\<close>

record view =
  sprite_objs :: "sprite_ref \<Rightarrow> ball"
  next_sprite :: nat
  next_cid :: nat
  physics_engine :: physics_engine
  balls :: "sprite_ref list"
  col_detector :: pos
  attached :: "body_ref option"
  attached_sprite :: "sprite_ref option"
  current_ball_mass :: int
  running :: bool
  center_pin :: sprite_ref

subsection \<open>Python lists\<close>

text \<open>\<^verbatim>\<open>xs[i]\<close>: a negative index counts from the end, an index out of range raises.\<close>

definition py_getitem :: "'a list \<Rightarrow> int \<Rightarrow> error + 'a" where
  "py_getitem xs i =
     (if 0 \<le> i \<and> i < int (length xs) then Inr (xs ! nat i)
      else if i < 0 \<and> - int (length xs) \<le> i then Inr (xs ! nat (int (length xs) + i))
      else Inl IndexError)"

text \<open>\<^verbatim>\<open>xs.index(x)\<close>: the first position of \<open>x\<close>, \<^verbatim>\<open>ValueError\<close> when there is none.\<close>

fun py_index :: "'a list \<Rightarrow> 'a \<Rightarrow> error + nat" where
  "py_index [] x = Inl ValueError"
| "py_index (y # ys) x =
     (if y = x then Inr 0
      else (case py_index ys x of Inl e \<Rightarrow> Inl e | Inr i \<Rightarrow> Inr (Suc i)))"

subsection \<open>The physics engine\<close>

text \<open>
  \<^verbatim>\<open>add_sprite\<close>: a new body at the sprite's position, entered in the dictionary and added
  to the space.
\<close>

definition add_sprite ::
  "sprite_ref \<Rightarrow> int \<Rightarrow> body_type \<Rightarrow> pos \<Rightarrow> physics_engine \<Rightarrow> physics_engine" where
  "add_sprite r m bt p pe =
     pe\<lparr>sprites := (sprites pe)(r \<mapsto> BodyOf r),
        body_objs := (body_objs pe)(BodyOf r := \<lparr>mass = m, body_type = bt, body_position = p\<rparr>),
        space_bodies := space_bodies pe @ [BodyOf r]\<rparr>"

text \<open>\<^verbatim>\<open>get_physics_object(sprite).body\<close>: a dictionary lookup.\<close>

definition get_physics_object :: "physics_engine \<Rightarrow> sprite_ref \<Rightarrow> error + body_ref" where
  "get_physics_object pe r = (case sprites pe r of None \<Rightarrow> Inl KeyError | Some bd \<Rightarrow> Inr bd)"

text \<open>
  \<^verbatim>\<open>remove_sprite\<close>: the body (and shape) leave the space and the sprite leaves the
  dictionary. Joints that refer to the body stay in the space.
\<close>

definition remove_sprite :: "sprite_ref \<Rightarrow> physics_engine \<Rightarrow> error + physics_engine" where
  "remove_sprite r pe =
     (case sprites pe r of
        None \<Rightarrow> Inl KeyError
      | Some bd \<Rightarrow>
          Inr (pe\<lparr>space_bodies := remove1 bd (space_bodies pe),
                  sprites := (sprites pe)(r := None)\<rparr>))"

text \<open>\<^verbatim>\<open>space.add(constraint)\<close>.\<close>

definition space_add :: "pin_joint \<Rightarrow> physics_engine \<Rightarrow> physics_engine" where
  "space_add c pe = pe\<lparr>space_constraints := space_constraints pe @ [c]\<rparr>"

text \<open>
  \<^verbatim>\<open>space.remove(x)\<close> where the handlers pass the \<^verbatim>\<open>constraint\<close> attribute of a ball, which is
  a joint or \<^verbatim>\<open>None\<close>. \<^verbatim>\<open>None\<close> is no object of the space and raises; a joint that the space
  does not hold fails the space's assertion.
\<close>

definition space_remove :: "pin_joint option \<Rightarrow> physics_engine \<Rightarrow> error + physics_engine" where
  "space_remove co pe =
     (case co of
        None \<Rightarrow> Inl UnsupportedType
      | Some c \<Rightarrow>
          if c \<in> set (space_constraints pe)
          then Inr (pe\<lparr>space_constraints := remove1 c (space_constraints pe)\<rparr>)
          else Inl AssertionError)"

subsection \<open>\<^verbatim>\<open>Ball\<close>\<close>

text \<open>
  The conversion of a Python integer to a float raises \<^verbatim>\<open>OverflowError\<close> from
  \<open>2 ^ 1024 - 2 ^ 970\<close> on, the least integer that rounds to \<open>2 ^ 1024\<close>, in either sign.
\<close>

definition float_overflows :: "int \<Rightarrow> bool" where
  "float_overflows n = (2 ^ 1024 - 2 ^ 970 \<le> \<bar>n\<bar>)"

text \<open>
  \<^verbatim>\<open>Ball.__init__\<close>. The radius \<^verbatim>\<open>2*int(math.sqrt(mass))\<close> converts the mass to a float and
  raises \<^verbatim>\<open>ValueError\<close> for a negative one; the friction \<^verbatim>\<open>0.2 * mass**2\<close> converts the
  square. Past these, a new sprite at \<open>p\<close> without a joint is registered with the engine
  and its trace is filled with \<^verbatim>\<open>TRACE_LENGTH\<close> copies of \<open>p\<close>. Returns the new reference.
  The texture of the sprite and the body of the engine are the libraries' and are taken to
  be created for every mass that passes the two conversions; what the libraries do with
  the mass 0 is left open, and every property below that says that a ball is created is
  stated for a positive mass (\<open>mass_ok\<close>).
\<close>

definition Ball_init ::
  "int \<Rightarrow> pos \<Rightarrow> body_type \<Rightarrow> view \<Rightarrow> error + sprite_ref \<times> view" where
  "Ball_init m p bt v =
     (if float_overflows m then Inl OverflowError
      else if m < 0 then Inl ValueError
      else if float_overflows (m * m) then Inl OverflowError
      else (let r = next_sprite v
            in Inr (r, v\<lparr>sprite_objs := (sprite_objs v)
                         (r := \<lparr>position = p, constraint = None,
                                 traces = replicate TRACE_LENGTH p\<rparr>),
                      next_sprite := Suc r,
                      physics_engine := add_sprite r m bt p (physics_engine v)\<rparr>)))"

text \<open>
  \<^verbatim>\<open>Ball.pymunk_moved\<close>: the engine has set the sprite's position before it calls; the
  inherited method does nothing.
\<close>

definition pymunk_moved :: "ball \<Rightarrow> ball" where
  "pymunk_moved bl = bl\<lparr>traces := drop 1 (traces bl) @ [position bl]\<rparr>"

subsection \<open>\<^verbatim>\<open>MyView\<close>\<close>

text \<open>
  The second argument of \<^verbatim>\<open>join_balls\<close> is a \<^verbatim>\<open>Ball\<close> or already a body
  (\<^verbatim>\<open>type(ball_b) == Ball\<close>).
\<close>

datatype join_target = ABall sprite_ref | ABody body_ref

definition join_balls :: "sprite_ref \<Rightarrow> join_target \<Rightarrow> view \<Rightarrow> error + view" where
  "join_balls ball_a ball_b v =
     (case get_physics_object (physics_engine v) ball_a of
        Inl e \<Rightarrow> Inl e
      | Inr body_a \<Rightarrow>
          (case (case ball_b of
                   ABall s \<Rightarrow> get_physics_object (physics_engine v) s
                 | ABody bd \<Rightarrow> Inr bd) of
             Inl e \<Rightarrow> Inl e
           | Inr body_b \<Rightarrow>
               (let c = \<lparr>cid = next_cid v, joint_a = body_a, joint_b = body_b\<rparr>
                in Inr (v\<lparr>next_cid := Suc (next_cid v),
                          sprite_objs := (sprite_objs v)
                            (ball_a := (sprite_objs v ball_a)\<lparr>constraint := Some c\<rparr>),
                          physics_engine := space_add c (physics_engine v)\<rparr>))))"

text \<open>
  \<^verbatim>\<open>create_ball\<close>; its callers pass no keyword arguments, so the body is dynamic. The
  colour is random and only drawn.
\<close>

definition create_ball :: "int \<Rightarrow> pos \<Rightarrow> view \<Rightarrow> error + view" where
  "create_ball m p v =
     (case Ball_init m p DYNAMIC v of
        Inl e \<Rightarrow> Inl e
      | Inr (r, v') \<Rightarrow> Inr (v'\<lparr>balls := balls v' @ [r]\<rparr>))"

text \<open>
  The loop of \<^verbatim>\<open>create_balls\<close> over \<^verbatim>\<open>self.balls\<close>: the centre pin is skipped, every other
  ball is joined to the one before.
\<close>

fun join_loop :: "sprite_ref list \<Rightarrow> sprite_ref \<Rightarrow> view \<Rightarrow> error + view" where
  "join_loop [] last_ball v = Inr v"
| "join_loop (bl # rest) last_ball v =
     (if bl = center_pin v then join_loop rest last_ball v
      else (case join_balls last_ball (ABall bl) v of
              Inl e \<Rightarrow> Inl e
            | Inr v' \<Rightarrow> join_loop rest bl v'))"

text \<open>
  The comprehension of \<^verbatim>\<open>create_balls\<close>: one \<^verbatim>\<open>create_ball\<close> after the other, up to the
  first that raises.
\<close>

fun create_each :: "(int \<times> pos) list \<Rightarrow> view \<Rightarrow> error + view" where
  "create_each [] v = Inr v"
| "create_each ((m, p) # rest) v =
     (case create_ball m p v of Inl e \<Rightarrow> Inl e | Inr v' \<Rightarrow> create_each rest v')"

text \<open>
  \<^verbatim>\<open>create_balls\<close>. Behind the assertion both lists have one length, so the comprehension
  over \<^verbatim>\<open>range(len(masses))\<close> walks the pairs of \<open>zip\<close>.
\<close>

definition create_balls :: "int list \<Rightarrow> pos list \<Rightarrow> view \<Rightarrow> error + view" where
  "create_balls masses positions v =
     (if length masses \<noteq> length positions then Inl AssertionError
      else (case create_each (zip masses positions) v of
              Inl e \<Rightarrow> Inl e
            | Inr v' \<Rightarrow> join_loop (balls v') (center_pin v') v'))"

text \<open>
  \<^verbatim>\<open>MyView.__init__\<close>, in two parts: the view with the centre pin alone, then the three
  balls.
\<close>

definition empty_view :: view where
  "empty_view =
     \<lparr>sprite_objs = (\<lambda>_. \<lparr>position = (0, 0), constraint = None, traces = []\<rparr>),
      next_sprite = 0,
      next_cid = 0,
      physics_engine =
        \<lparr>sprites = (\<lambda>_. None),
         body_objs = (\<lambda>_. \<lparr>mass = 0, body_type = DYNAMIC, body_position = (0, 0)\<rparr>),
         space_bodies = [],
         space_constraints = []\<rparr>,
      balls = [],
      col_detector = (0, 0),
      attached = None,
      attached_sprite = None,
      current_ball_mass = 10,
      running = False,
      center_pin = 0\<rparr>"

definition init_center_pin :: "error + view" where
  "init_center_pin =
     (case Ball_init 1 (WINDOW_WIDTH / 2, WINDOW_HEIGHT / 2) STATIC empty_view of
        Inl e \<Rightarrow> Inl e
      | Inr (r, v) \<Rightarrow> Inr (v\<lparr>center_pin := r, balls := balls v @ [r]\<rparr>))"

definition MyView_init :: "error + view" where
  "MyView_init =
     (case init_center_pin of
        Inl e \<Rightarrow> Inl e
      | Inr v \<Rightarrow> create_balls [10, 15, 20] [(500, 300), (600, 300), (650, 300)] v)"

text \<open>\<^verbatim>\<open>on_mouse_motion\<close>.\<close>

definition on_mouse_motion :: "real \<Rightarrow> real \<Rightarrow> view \<Rightarrow> view" where
  "on_mouse_motion x y v =
     (let v1 = v\<lparr>col_detector := (x, y)\<rparr>
      in (case attached_sprite v1 of
            None \<Rightarrow> v1
          | Some r \<Rightarrow>
              v1\<lparr>sprite_objs := (sprite_objs v1)(r := (sprite_objs v1 r)\<lparr>position := (x, y)\<rparr>)\<rparr>))"

text \<open>
  \<^verbatim>\<open>on_mouse_press\<close>. The collision test of the detector against one sprite is the
  engine's and comes with the event as \<open>hit\<close>; \<^verbatim>\<open>check_for_collision_with_list\<close> returns the
  sprites of the list that pass it, in the order of the list.
\<close>

definition press_left :: "real \<Rightarrow> real \<Rightarrow> (sprite_ref \<Rightarrow> bool) \<Rightarrow> view \<Rightarrow> error + view" where
  "press_left x y hit v =
     (let v1 = v\<lparr>col_detector := (x, y)\<rparr>;
          clicked_sprites = filter hit (balls v1)
      in (case clicked_sprites of
            [] \<Rightarrow> Inr v1
          | s # _ \<Rightarrow>
              (case get_physics_object (physics_engine v1) s of
                 Inl e \<Rightarrow> Inl e
               | Inr bd \<Rightarrow> Inr (v1\<lparr>attached := Some bd, attached_sprite := Some s\<rparr>))))"

definition press_right :: "real \<Rightarrow> real \<Rightarrow> view \<Rightarrow> error + view" where
  "press_right x y v =
     (case create_ball (current_ball_mass v) (x, y) v of
        Inl e \<Rightarrow> Inl e
      | Inr v1 \<Rightarrow>
          (case py_getitem (balls v1) (- 2) of
             Inl e \<Rightarrow> Inl e
           | Inr ball_a \<Rightarrow>
               (case py_getitem (balls v1) (- 1) of
                  Inl e \<Rightarrow> Inl e
                | Inr ball_b \<Rightarrow> join_balls ball_a (ABall ball_b) v1)))"

text \<open>
  The removal of the clicked sprite once its index is known not to be 0: if it holds a
  joint, the ball before it is joined to that joint's body \<^verbatim>\<open>b\<close> and the joint is taken out
  of the space; then the sprite leaves the list and the engine.
\<close>

definition remove_clicked :: "sprite_ref \<Rightarrow> nat \<Rightarrow> view \<Rightarrow> error + view" where
  "remove_clicked clicked_sprite index v =
     (case (case constraint (sprite_objs v clicked_sprite) of
              None \<Rightarrow> Inr v
            | Some c \<Rightarrow>
                (case py_getitem (balls v) (int index - 1) of
                   Inl e \<Rightarrow> Inl e
                 | Inr prev \<Rightarrow>
                     (case join_balls prev (ABody (joint_b c)) v of
                        Inl e \<Rightarrow> Inl e
                      | Inr v1 \<Rightarrow>
                          (case space_remove (constraint (sprite_objs v1 clicked_sprite))
                                  (physics_engine v1) of
                             Inl e \<Rightarrow> Inl e
                           | Inr pe \<Rightarrow> Inr (v1\<lparr>physics_engine := pe\<rparr>))))) of
        Inl e \<Rightarrow> Inl e
      | Inr v2 \<Rightarrow>
          (let v3 = v2\<lparr>balls := remove1 clicked_sprite (balls v2)\<rparr>
           in (case remove_sprite clicked_sprite (physics_engine v3) of
                 Inl e \<Rightarrow> Inl e
               | Inr pe \<Rightarrow> Inr (v3\<lparr>physics_engine := pe\<rparr>))))"

definition press_middle :: "real \<Rightarrow> real \<Rightarrow> (sprite_ref \<Rightarrow> bool) \<Rightarrow> view \<Rightarrow> error + view" where
  "press_middle x y hit v =
     (let v1 = v\<lparr>col_detector := (x, y)\<rparr>;
          clicked_sprite = filter hit (balls v1)
      in (case clicked_sprite of
            [] \<Rightarrow> Inr v1
          | s # _ \<Rightarrow>
              (case py_index (balls v1) s of
                 Inl e \<Rightarrow> Inl e
               | Inr index \<Rightarrow> if index \<noteq> 0 then remove_clicked s index v1 else Inr v1)))"

definition on_mouse_press ::
  "real \<Rightarrow> real \<Rightarrow> mouse_button \<Rightarrow> (sprite_ref \<Rightarrow> bool) \<Rightarrow> view \<Rightarrow> error + view" where
  "on_mouse_press x y button hit v =
     (if button = MOUSE_BUTTON_LEFT then press_left x y hit v
      else if button = MOUSE_BUTTON_RIGHT then press_right x y v
      else if button = MOUSE_BUTTON_MIDDLE then press_middle x y hit v
      else Inr v)"

text \<open>\<^verbatim>\<open>on_mouse_scroll\<close>.\<close>

definition on_mouse_scroll :: "int \<Rightarrow> view \<Rightarrow> view" where
  "on_mouse_scroll scroll_y v =
     v\<lparr>current_ball_mass := max (current_ball_mass v + scroll_y) 1\<rparr>"

text \<open>
  \<^verbatim>\<open>on_mouse_release\<close>. \<^verbatim>\<open>balls.index(None)\<close> raises \<^verbatim>\<open>ValueError\<close>; \<^verbatim>\<open>balls[index-1]\<close> is the
  last ball when the index is 0.
\<close>

definition on_mouse_release :: "view \<Rightarrow> error + view" where
  "on_mouse_release v =
     (case attached v of
        None \<Rightarrow> Inr v
      | Some _ \<Rightarrow>
          (case attached_sprite v of
             None \<Rightarrow> Inl ValueError
           | Some s \<Rightarrow>
          (case py_index (balls v) s of
             Inl e \<Rightarrow> Inl e
           | Inr index \<Rightarrow>
          (case py_getitem (balls v) (int index - 1) of
             Inl e \<Rightarrow> Inl e
           | Inr previous_ball \<Rightarrow>
          (case space_remove (constraint (sprite_objs v previous_ball)) (physics_engine v) of
             Inl e \<Rightarrow> Inl e
           | Inr pe \<Rightarrow>
          (case join_balls previous_ball (ABall s) (v\<lparr>physics_engine := pe\<rparr>) of
             Inl e \<Rightarrow> Inl e
           | Inr v1 \<Rightarrow>
          (case (case constraint (sprite_objs v1 s) of
                   None \<Rightarrow> Inr v1
                 | Some next_constraint \<Rightarrow>
                     (case space_remove (Some next_constraint) (physics_engine v1) of
                        Inl e \<Rightarrow> Inl e
                      | Inr pe1 \<Rightarrow>
                          join_balls s (ABody (joint_b next_constraint))
                            (v1\<lparr>physics_engine := pe1\<rparr>))) of
             Inl e \<Rightarrow> Inl e
           | Inr v2 \<Rightarrow> Inr (v2\<lparr>attached := None, attached_sprite := None\<rparr>))))))))"

text \<open>\<^verbatim>\<open>on_key_release\<close>; \<open>is_space\<close> says whether the key is the space bar.\<close>

definition on_key_release :: "bool \<Rightarrow> view \<Rightarrow> view" where
  "on_key_release is_space v = (if is_space then v\<lparr>running := \<not> running v\<rparr> else v)"

text \<open>
  \<^verbatim>\<open>on_update\<close>. \<^verbatim>\<open>update_position\<close> integrates the velocity of the attached body into its
  position, which the next line overwrites. The step of the engine is external and is the
  parameter \<open>step\<close>.
\<close>

definition on_update :: "(view \<Rightarrow> view) \<Rightarrow> view \<Rightarrow> view" where
  "on_update step v =
     (let v1 = (case attached v of
                  None \<Rightarrow> v
                | Some bd \<Rightarrow>
                    v\<lparr>physics_engine := (physics_engine v)
                        \<lparr>body_objs := (body_objs (physics_engine v))
                           (bd := (body_objs (physics_engine v) bd)
                              \<lparr>body_position := col_detector v\<rparr>)\<rparr>\<rparr>)
      in if running v1 then step v1 else v1)"

subsection \<open>Sessions\<close>

text \<open>
  The input events of a session. An exception that leaves a handler ends the program, so a
  run stops at the first error.
\<close>

datatype event =
    MousePress real real mouse_button "sprite_ref \<Rightarrow> bool"
  | MouseRelease
  | MouseScroll int
  | MouseMotion real real
  | KeyRelease bool

fun handle :: "event \<Rightarrow> view \<Rightarrow> error + view" where
  "handle (MousePress x y button hit) v = on_mouse_press x y button hit v"
| "handle MouseRelease v = on_mouse_release v"
| "handle (MouseScroll scroll_y) v = Inr (on_mouse_scroll scroll_y v)"
| "handle (MouseMotion x y) v = Inr (on_mouse_motion x y v)"
| "handle (KeyRelease is_space) v = Inr (on_key_release is_space v)"

fun run :: "event list \<Rightarrow> view \<Rightarrow> error + view" where
  "run [] v = Inr v"
| "run (e # es) v = (case handle e v of Inl err \<Rightarrow> Inl err | Inr v' \<Rightarrow> run es v')"

subsection \<open>What the space and the sprites hold\<close>

text \<open>The two bodies of a joint.\<close>

definition endpoints :: "pin_joint \<Rightarrow> body_ref \<times> body_ref" where
  "endpoints c = (joint_a c, joint_b c)"

text \<open>The joints of the space, as pairs of bodies.\<close>

definition links :: "view \<Rightarrow> (body_ref \<times> body_ref) list" where
  "links v = map endpoints (space_constraints (physics_engine v))"

text \<open>
  The view with the centre pin alone, which the first part of \<^verbatim>\<open>MyView.__init__\<close> returns,
  and the view that \<^verbatim>\<open>MyView.__init__\<close> returns; \<open>init_center_pin_ok\<close> and
  \<open>MyView_init_ok\<close> show that they do return.
\<close>

definition anchor_view :: view where
  "anchor_view = (case init_center_pin of Inl e \<Rightarrow> empty_view | Inr v \<Rightarrow> v)"

definition initial_view :: view where
  "initial_view = (case MyView_init of Inl e \<Rightarrow> anchor_view | Inr v \<Rightarrow> v)"

text \<open>
  A mass that \<^verbatim>\<open>Ball.__init__\<close> accepts and that is positive, as the configured mass of
  a session always is.
\<close>

definition mass_ok :: "int \<Rightarrow> bool" where
  "mass_ok m = (0 < m \<and> \<not> float_overflows m \<and> \<not> float_overflows (m * m))"

text \<open>Every ball created so far has a trace of \<^verbatim>\<open>TRACE_LENGTH\<close> positions.\<close>

definition traces_full :: "view \<Rightarrow> bool" where
  "traces_full v = (\<forall>r < next_sprite v. length (traces (sprite_objs v r)) = TRACE_LENGTH)"

subsection \<open>Chains\<close>

text \<open>
  The sprites of the list are distinct sprites that were created and are known to the
  engine, and the list starts with the centre pin.
\<close>

definition wf_chain :: "view \<Rightarrow> bool" where
  "wf_chain v =
     (balls v \<noteq> [] \<and> hd (balls v) = center_pin v \<and> distinct (balls v)
      \<and> (\<forall>r \<in> set (balls v).
            r < next_sprite v \<and> sprites (physics_engine v) r = Some (BodyOf r)))"

text \<open>
  The sprite \<open>r\<close> holds a joint from its own body to the body of \<open>s\<close>, and the space
  holds that joint.
\<close>

definition owns_link :: "view \<Rightarrow> sprite_ref \<Rightarrow> sprite_ref \<Rightarrow> bool" where
  "owns_link v r s =
     (case constraint (sprite_objs v r) of
        None \<Rightarrow> False
      | Some c \<Rightarrow> endpoints c = (BodyOf r, BodyOf s)
                  \<and> c \<in> set (space_constraints (physics_engine v)))"

text \<open>Every sprite of the list but the last holds the joint to the sprite after it.\<close>

definition successor_links :: "view \<Rightarrow> bool" where
  "successor_links v = list_all (\<lambda>(r, s). owns_link v r s) (zip (balls v) (tl (balls v)))"

text \<open>The chain as \<^verbatim>\<open>create_balls\<close> builds it: the last sprite holds no joint.\<close>

definition valid_chain :: "view \<Rightarrow> bool" where
  "valid_chain v =
     (wf_chain v \<and> successor_links v \<and> constraint (sprite_objs v (last (balls v))) = None)"

text \<open>
  The joints of the space are exactly those between neighbours of the list, in the order of
  the list.
\<close>

definition consecutive_links :: "view \<Rightarrow> bool" where
  "consecutive_links v =
     (links v = map (\<lambda>(r, s). (BodyOf r, BodyOf s)) (zip (balls v) (tl (balls v))))"

text \<open>A right click.\<close>

fun is_append :: "event \<Rightarrow> bool" where
  "is_append (MousePress x y button hit) = (button = MOUSE_BUTTON_RIGHT)"
| "is_append _ = False"

text \<open>
  What holds of the centre pin in every view that a session reaches: it is sprite 0, the
  first of the list, known to the engine, its body is in the space and is the one static
  body; every sprite the engine knows has the body made for it.
\<close>

definition anchor_inv :: "view \<Rightarrow> bool" where
  "anchor_inv v =
     (balls v \<noteq> [] \<and> hd (balls v) = center_pin v \<and> center_pin v = 0
      \<and> (\<forall>r \<in> set (balls v). r < next_sprite v)
      \<and> sprites (physics_engine v) 0 = Some (BodyOf 0)
      \<and> (\<forall>r. sprites (physics_engine v) r = None
               \<or> sprites (physics_engine v) r = Some (BodyOf r))
      \<and> BodyOf 0 \<in> set (space_bodies (physics_engine v))
      \<and> body_type (body_objs (physics_engine v) (BodyOf 0)) = STATIC
      \<and> (\<forall>r. 0 < r \<longrightarrow> r < next_sprite v \<longrightarrow>
            body_type (body_objs (physics_engine v) (BodyOf r)) = DYNAMIC))"


section \<open>Properties\<close>

subsection \<open>The initial view\<close>

lemma float_overflows_small [simp]: "\<bar>n\<bar> < 2 ^ 64 \<Longrightarrow> \<not> float_overflows n"
proof -
  have "(2::int) ^ 64 \<le> 2 ^ 1024 - 2 ^ 970"
    by simp
  then show "\<bar>n\<bar> < 2 ^ 64 \<Longrightarrow> \<not> float_overflows n"
    unfolding float_overflows_def by linarith
qed

lemma mass_ok_small: "0 < m \<Longrightarrow> m < 2 ^ 16 \<Longrightarrow> mass_ok m"
proof -
  assume m: "0 < m" "m < 2 ^ 16"
  then have "m * m < 2 ^ 16 * 2 ^ 16"
    by (intro mult_strict_mono) simp_all
  then have "\<bar>m * m\<bar> < 2 ^ 64" "\<bar>m\<bar> < 2 ^ 64"
    using m by simp_all
  with m(1) show ?thesis
    by (simp add: mass_ok_def)
qed

lemmas init_defs = MyView_init_def init_center_pin_def anchor_view_def empty_view_def
  create_balls_def create_ball_def Ball_init_def add_sprite_def join_balls_def
  get_physics_object_def space_add_def Let_def

lemma init_center_pin_ok: "init_center_pin = Inr anchor_view"
  by (simp add: anchor_view_def init_center_pin_def Ball_init_def Let_def)

lemma MyView_init_ok: "MyView_init = Inr initial_view"
  by (simp add: initial_view_def init_defs)

lemma initial_view_fields:
  "balls initial_view = [0, 1, 2, 3]"
  "next_sprite initial_view = 4"
  "next_cid initial_view = 3"
  "center_pin initial_view = 0"
  "current_ball_mass initial_view = 10"
  "attached initial_view = None"
  "attached_sprite initial_view = None"
  "space_constraints (physics_engine initial_view) =
     [\<lparr>cid = 0, joint_a = BodyOf 0, joint_b = BodyOf 1\<rparr>,
      \<lparr>cid = 1, joint_a = BodyOf 1, joint_b = BodyOf 2\<rparr>,
      \<lparr>cid = 2, joint_a = BodyOf 2, joint_b = BodyOf 3\<rparr>]"
  "space_bodies (physics_engine initial_view) = [BodyOf 0, BodyOf 1, BodyOf 2, BodyOf 3]"
  by (simp_all add: initial_view_def init_defs)

lemma initial_valid_chain: "valid_chain initial_view"
  by (simp add: valid_chain_def wf_chain_def successor_links_def owns_link_def endpoints_def
        initial_view_def init_defs)

subsection \<open>What \<^verbatim>\<open>join_balls\<close> and the handlers leave alone\<close>

lemma join_balls_frame:
  "join_balls a b v = Inr v' \<Longrightarrow>
     balls v' = balls v \<and> next_sprite v' = next_sprite v
     \<and> current_ball_mass v' = current_ball_mass v
     \<and> center_pin v' = center_pin v \<and> attached v' = attached v
     \<and> attached_sprite v' = attached_sprite v
     \<and> running v' = running v \<and> col_detector v' = col_detector v
     \<and> sprites (physics_engine v') = sprites (physics_engine v)
     \<and> body_objs (physics_engine v') = body_objs (physics_engine v)
     \<and> space_bodies (physics_engine v') = space_bodies (physics_engine v)
     \<and> traces (sprite_objs v' r) = traces (sprite_objs v r)
     \<and> position (sprite_objs v' r) = position (sprite_objs v r)"
  by (auto simp: join_balls_def Let_def space_add_def split: sum.splits)

lemma create_ball_Inr:
  "create_ball m p v = Inr v1 \<longleftrightarrow>
     0 \<le> m \<and> \<not> float_overflows m \<and> \<not> float_overflows (m * m)
     \<and> v1 = v\<lparr>sprite_objs := (sprite_objs v)
                   (next_sprite v := \<lparr>position = p, constraint = None,
                                       traces = replicate TRACE_LENGTH p\<rparr>),
                next_sprite := Suc (next_sprite v),
                physics_engine := add_sprite (next_sprite v) m DYNAMIC p (physics_engine v),
                balls := balls v @ [next_sprite v]\<rparr>"
  by (auto simp: create_ball_def Ball_init_def Let_def)

lemma create_ball_ok: "mass_ok m \<Longrightarrow> \<exists>v1. create_ball m p v = Inr v1"
  by (simp add: create_ball_Inr mass_ok_def)

lemmas press_defs = on_mouse_press_def press_left_def press_right_def press_middle_def
  remove_clicked_def Let_def create_ball_Inr

lemma press_mass:
  "on_mouse_press x y button hit v = Inr v' \<Longrightarrow> current_ball_mass v' = current_ball_mass v"
  by (cases button)
     (auto simp: press_defs split: sum.splits list.splits option.splits if_splits
        dest!: join_balls_frame)

lemma release_mass:
  "on_mouse_release v = Inr v' \<Longrightarrow> current_ball_mass v' = current_ball_mass v"
  by (auto simp: on_mouse_release_def split: sum.splits option.splits dest!: join_balls_frame)

lemma handle_mass_ge:
  "handle e v = Inr v' \<Longrightarrow> 1 \<le> current_ball_mass v \<Longrightarrow> 1 \<le> current_ball_mass v'"
  by (cases e)
     (auto simp: on_mouse_scroll_def on_mouse_motion_def on_key_release_def Let_def
        split: option.splits if_splits dest: press_mass release_mass)

lemma run_mass_ge:
  "run es v = Inr v' \<Longrightarrow> 1 \<le> current_ball_mass v \<Longrightarrow> 1 \<le> current_ball_mass v'"
proof (induction es arbitrary: v)
  case Nil
  then show ?case by simp
next
  case (Cons e es)
  then obtain v1 where h: "handle e v = Inr v1" and r: "run es v1 = Inr v'"
    by (auto split: sum.splits)
  from handle_mass_ge[OF h Cons.prems(2)] Cons.IH[OF r] show ?case by simp
qed

lemma press_right_mass:
  "on_mouse_press x y MOUSE_BUTTON_RIGHT hit v = Inr v' \<Longrightarrow>
     balls v' = balls v @ [next_sprite v]
     \<and> sprites (physics_engine v') (next_sprite v) = Some (BodyOf (next_sprite v))
     \<and> mass (body_objs (physics_engine v') (BodyOf (next_sprite v))) = current_ball_mass v
     \<and> body_type (body_objs (physics_engine v') (BodyOf (next_sprite v))) = DYNAMIC"
  by (auto simp: press_defs add_sprite_def split: sum.splits dest!: join_balls_frame)

lemma press_traces:
  "on_mouse_press x y button hit v = Inr v' \<Longrightarrow> r < next_sprite v \<Longrightarrow>
     traces (sprite_objs v' r) = traces (sprite_objs v r) \<and> next_sprite v \<le> next_sprite v'"
  by (cases button)
     (auto simp: press_defs split: sum.splits list.splits option.splits if_splits
        dest!: join_balls_frame[where r = r])

lemma press_new_traces:
  "on_mouse_press x y button hit v = Inr v' \<Longrightarrow> next_sprite v \<le> r \<Longrightarrow> r < next_sprite v' \<Longrightarrow>
     length (traces (sprite_objs v' r)) = TRACE_LENGTH"
  by (cases button)
     (auto simp: press_defs split: sum.splits list.splits option.splits if_splits
        dest!: join_balls_frame[where r = r])

lemma release_traces:
  "on_mouse_release v = Inr v' \<Longrightarrow>
     traces (sprite_objs v' r) = traces (sprite_objs v r) \<and> next_sprite v' = next_sprite v"
  by (auto simp: on_mouse_release_def split: sum.splits option.splits
        dest!: join_balls_frame[where r = r])

lemma handle_traces:
  "handle e v = Inr v' \<Longrightarrow> r < next_sprite v \<Longrightarrow>
     traces (sprite_objs v' r) = traces (sprite_objs v r)"
  by (cases e)
     (auto simp: on_mouse_scroll_def on_mouse_motion_def on_key_release_def Let_def
        split: option.splits if_splits dest: press_traces release_traces)

lemma handle_traces_full:
  assumes "handle e v = Inr v'" "traces_full v"
  shows "traces_full v'"
proof (cases e)
  case (MousePress x y button hit)
  with assms(1) have p: "on_mouse_press x y button hit v = Inr v'" by simp
  show ?thesis
    unfolding traces_full_def
  proof (intro allI impI)
    fix r assume r: "r < next_sprite v'"
    show "length (traces (sprite_objs v' r)) = TRACE_LENGTH"
    proof (cases "r < next_sprite v")
      case True
      with press_traces[OF p True] assms(2) show ?thesis by (simp add: traces_full_def)
    next
      case False
      with press_new_traces[OF p _ r] show ?thesis by simp
    qed
  qed
next
  case MouseRelease
  with assms(1) have h: "on_mouse_release v = Inr v'" by simp
  show ?thesis
    using assms(2) release_traces[OF h] by (simp add: traces_full_def)
qed (use assms in \<open>auto simp: traces_full_def on_mouse_scroll_def on_mouse_motion_def
       on_key_release_def Let_def split: option.splits if_splits\<close>)

lemma run_traces_full:
  "run es v = Inr v' \<Longrightarrow> traces_full v \<Longrightarrow> traces_full v'"
  by (induction es arbitrary: v) (auto split: sum.splits dest: handle_traces_full)

lemma initial_traces_full: "traces_full initial_view"
  unfolding traces_full_def
proof (intro allI impI)
  fix r assume "r < next_sprite initial_view"
  then have "r = 0 \<or> r = 1 \<or> r = 2 \<or> r = 3"
    by (auto simp: initial_view_fields)
  then show "length (traces (sprite_objs initial_view r)) = TRACE_LENGTH"
    by (auto simp: initial_view_def init_defs)
qed

subsection \<open>Lists and chains\<close>

lemma successor_links_nth:
  "successor_links v \<longleftrightarrow>
     (\<forall>i. Suc i < length (balls v) \<longrightarrow> owns_link v (balls v ! i) (balls v ! Suc i))"
  by (auto simp: successor_links_def list_all_length nth_tl)

lemma py_index_Inr:
  "py_index xs x = Inr i \<Longrightarrow> i < length xs \<and> xs ! i = x \<and> (i = 0 \<longleftrightarrow> hd xs = x)"
  by (induction xs arbitrary: i) (auto split: if_splits sum.splits)

lemma py_index_mem: "x \<in> set xs \<Longrightarrow> \<exists>i. py_index xs x = Inr i"
  by (induction xs) auto

lemma py_getitem_pred:
  "0 < i \<Longrightarrow> i < length xs \<Longrightarrow> py_getitem xs (int i - 1) = Inr (xs ! (i - 1))"
  by (auto simp: py_getitem_def nat_diff_distrib')

lemma mset_map_replace:
  "c \<in> set cs \<Longrightarrow> f c' = f c \<Longrightarrow> mset (map f (remove1 c cs @ [c'])) = mset (map f cs)"
  by (induction cs) auto

lemma relink:
  assumes wf: "wf_chain v" and sl: "successor_links v"
    and j: "Suc j < length (balls v)"
    and tgt: "tgt = ABall (balls v ! Suc j) \<or> tgt = ABody (BodyOf (balls v ! Suc j))"
  shows "\<exists>pe' v'.
      space_remove (constraint (sprite_objs v (balls v ! j))) (physics_engine v) = Inr pe'
    \<and> join_balls (balls v ! j) tgt (v\<lparr>physics_engine := pe'\<rparr>) = Inr v'
    \<and> balls v' = balls v \<and> wf_chain v' \<and> successor_links v'
    \<and> mset (links v') = mset (links v)
    \<and> (\<forall>r. r \<noteq> balls v ! j \<longrightarrow> sprite_objs v' r = sprite_objs v r)
    \<and> attached v' = attached v \<and> attached_sprite v' = attached_sprite v"
proof -
  let ?p = "balls v ! j" and ?t = "balls v ! Suc j"
  let ?cs = "space_constraints (physics_engine v)"
  from sl j have "owns_link v ?p ?t"
    by (simp add: successor_links_nth)
  then obtain c where c: "constraint (sprite_objs v ?p) = Some c"
      "endpoints c = (BodyOf ?p, BodyOf ?t)" "c \<in> set ?cs"
    by (auto simp: owns_link_def split: option.splits)
  let ?pe = "(physics_engine v)\<lparr>space_constraints := remove1 c ?cs\<rparr>"
  have rm: "space_remove (constraint (sprite_objs v ?p)) (physics_engine v) = Inr ?pe"
    using c by (simp add: space_remove_def)
  from wf j have sp: "sprites (physics_engine v) ?p = Some (BodyOf ?p)"
      and st: "sprites (physics_engine v) ?t = Some (BodyOf ?t)"
    by (auto simp: wf_chain_def)
  let ?c' = "\<lparr>cid = next_cid v, joint_a = BodyOf ?p, joint_b = BodyOf ?t\<rparr>"
  let ?v' = "v\<lparr>physics_engine := ?pe\<rparr>
     \<lparr>next_cid := Suc (next_cid v),
      sprite_objs := (sprite_objs v)(?p := (sprite_objs v ?p)\<lparr>constraint := Some ?c'\<rparr>),
      physics_engine := space_add ?c' ?pe\<rparr>"
  have jb: "join_balls ?p tgt (v\<lparr>physics_engine := ?pe\<rparr>) = Inr ?v'"
    using tgt sp st by (auto simp: join_balls_def get_physics_object_def Let_def)
  have wf': "wf_chain ?v'"
    using wf by (simp add: wf_chain_def space_add_def)
  have cs': "space_constraints (physics_engine ?v') = remove1 c ?cs @ [?c']"
    by (simp add: space_add_def)
  have ms: "mset (links ?v') = mset (links v)"
    unfolding links_def cs' using c(2,3)
    by (intro mset_map_replace) (simp_all add: endpoints_def)
  have sl': "successor_links ?v'"
    unfolding successor_links_nth
  proof (intro allI impI)
    fix i assume i: "Suc i < length (balls ?v')"
    then have i': "Suc i < length (balls v)" by simp
    show "owns_link ?v' (balls ?v' ! i) (balls ?v' ! Suc i)"
    proof (cases "i = j")
      case True
      then show ?thesis
        by (simp add: owns_link_def endpoints_def space_add_def)
    next
      case False
      from wf i' j False have ne: "balls v ! i \<noteq> ?p"
        by (auto simp: wf_chain_def nth_eq_iff_index_eq)
      from sl i' have "owns_link v (balls v ! i) (balls v ! Suc i)"
        by (simp add: successor_links_nth)
      then obtain d where d: "constraint (sprite_objs v (balls v ! i)) = Some d"
          "endpoints d = (BodyOf (balls v ! i), BodyOf (balls v ! Suc i))" "d \<in> set ?cs"
        by (auto simp: owns_link_def split: option.splits)
      from d(2) c(2) ne have "d \<noteq> c"
        by (auto simp: endpoints_def)
      with d(3) have "d \<in> set (remove1 c ?cs)"
        by simp
      with d ne show ?thesis
        by (simp add: owns_link_def space_add_def)
    qed
  qed
  show ?thesis
    using rm jb wf' sl' ms
    by (intro exI[of _ ?pe] exI[of _ ?v']) simp
qed

lemma owns_link_cong:
  "constraint (sprite_objs v' r) = constraint (sprite_objs v r) \<Longrightarrow>
   space_constraints (physics_engine v') = space_constraints (physics_engine v) \<Longrightarrow>
   owns_link v' r s = owns_link v r s"
  by (simp add: owns_link_def cong: option.case_cong)

lemma successor_links_cong:
  assumes "balls v' = balls v"
    and "\<And>r. r \<in> set (balls v) \<Longrightarrow> constraint (sprite_objs v' r) = constraint (sprite_objs v r)"
    and "space_constraints (physics_engine v') = space_constraints (physics_engine v)"
  shows "successor_links v' = successor_links v"
  unfolding successor_links_nth assms(1)
  using assms(2,3) by (auto simp: owns_link_cong[of v' _ v])

lemma valid_chain_cong:
  assumes "balls v' = balls v"
    and "\<And>r. r \<in> set (balls v) \<Longrightarrow> constraint (sprite_objs v' r) = constraint (sprite_objs v r)"
    and "physics_engine v' = physics_engine v"
    and "next_sprite v' = next_sprite v" "center_pin v' = center_pin v"
  shows "valid_chain v' = valid_chain v"
proof -
  have "successor_links v' = successor_links v"
    using assms by (intro successor_links_cong) simp_all
  moreover have "wf_chain v' = wf_chain v"
    using assms by (simp add: wf_chain_def)
  moreover have "balls v \<noteq> [] \<Longrightarrow>
      constraint (sprite_objs v' (last (balls v'))) = constraint (sprite_objs v (last (balls v)))"
    using assms by simp
  ultimately show ?thesis
    by (auto simp: valid_chain_def wf_chain_def)
qed

lemma valid_chain_frame [simp]:
  "valid_chain (v\<lparr>col_detector := cd\<rparr>) = valid_chain v"
  "valid_chain (v\<lparr>attached := a\<rparr>) = valid_chain v"
  "valid_chain (v\<lparr>attached_sprite := b\<rparr>) = valid_chain v"
  by (rule valid_chain_cong; simp)+

lemma links_frame [simp]:
  "links (v\<lparr>col_detector := cd\<rparr>) = links v"
  "links (v\<lparr>attached := a\<rparr>) = links v"
  "links (v\<lparr>attached_sprite := b\<rparr>) = links v"
  by (simp_all add: links_def)

lemma filter_hd_mem: "filter P xs = s # rest \<Longrightarrow> s \<in> set xs"
  using filter_is_subset[of P xs] by auto

lemma press_left_grab:
  assumes "wf_chain v" "filter hit (balls v) = s # rest"
  shows "on_mouse_press x y MOUSE_BUTTON_LEFT hit v
           = Inr (v\<lparr>col_detector := (x, y), attached := Some (BodyOf s), attached_sprite := Some s\<rparr>)"
proof -
  from assms have "sprites (physics_engine v) s = Some (BodyOf s)"
    by (auto simp: wf_chain_def dest: filter_hd_mem)
  with assms(2) show ?thesis
    by (simp add: on_mouse_press_def press_left_def get_physics_object_def)
qed

lemma motion_frame:
  "balls (on_mouse_motion a b v) = balls v"
  "links (on_mouse_motion a b v) = links v"
  "attached (on_mouse_motion a b v) = attached v"
  "attached_sprite (on_mouse_motion a b v) = attached_sprite v"
  "center_pin (on_mouse_motion a b v) = center_pin v"
  "valid_chain (on_mouse_motion a b v) = valid_chain v"
proof -
  show "valid_chain (on_mouse_motion a b v) = valid_chain v"
    by (rule valid_chain_cong)
       (simp_all add: on_mouse_motion_def Let_def split: option.splits)
qed (simp_all add: on_mouse_motion_def Let_def links_def split: option.splits)

lemma release_restores:
  assumes vc: "valid_chain v" and at: "attached v = Some bd" "attached_sprite v = Some s"
    and s: "s \<in> set (balls v)" "s \<noteq> center_pin v"
  shows "\<exists>v2. on_mouse_release v = Inr v2 \<and> balls v2 = balls v
     \<and> mset (links v2) = mset (links v) \<and> valid_chain v2
     \<and> attached v2 = None \<and> attached_sprite v2 = None \<and> center_pin v2 = center_pin v"
proof -
  from vc have wf: "wf_chain v" and sl: "successor_links v"
      and tl: "constraint (sprite_objs v (last (balls v))) = None"
    by (simp_all add: valid_chain_def)
  from py_index_mem[OF s(1)] obtain i where ix: "py_index (balls v) s = Inr i" ..
  from wf have hd: "hd (balls v) = center_pin v" and dist: "distinct (balls v)"
    by (simp_all add: wf_chain_def)
  from py_index_Inr[OF ix] s(2) hd have i: "i < length (balls v)" "balls v ! i = s" "0 < i"
    by auto
  define j where "j = i - 1"
  with i have j: "Suc j < length (balls v)" "Suc j = i" by simp_all
  have gi: "py_getitem (balls v) (int i - 1) = Inr (balls v ! j)"
    using i by (simp add: py_getitem_pred j_def)
  from dist i j have pne: "balls v ! j \<noteq> s"
    by (auto simp: nth_eq_iff_index_eq)
  from relink[OF wf sl j(1), of "ABall (balls v ! Suc j)"]
  obtain pe' v' where r1:
      "space_remove (constraint (sprite_objs v (balls v ! j))) (physics_engine v) = Inr pe'"
      "join_balls (balls v ! j) (ABall s) (v\<lparr>physics_engine := pe'\<rparr>) = Inr v'"
      "balls v' = balls v" "wf_chain v'" "successor_links v'"
      "mset (links v') = mset (links v)"
      "\<forall>r. r \<noteq> balls v ! j \<longrightarrow> sprite_objs v' r = sprite_objs v r"
      "attached v' = attached v" "attached_sprite v' = attached_sprite v"
    unfolding j(2) i(2) by blast
  from join_balls_frame[OF r1(2)] have cp1: "center_pin v' = center_pin v"
    by simp
  from r1(7) pne have so: "sprite_objs v' s = sprite_objs v s"
    by simp
  have rel0: "on_mouse_release v =
      (case (case constraint (sprite_objs v' s) of
               None \<Rightarrow> Inr v'
             | Some next_constraint \<Rightarrow>
                 (case space_remove (Some next_constraint) (physics_engine v') of
                    Inl e \<Rightarrow> Inl e
                  | Inr pe1 \<Rightarrow>
                      join_balls s (ABody (joint_b next_constraint))
                        (v'\<lparr>physics_engine := pe1\<rparr>))) of
         Inl e \<Rightarrow> Inl e
       | Inr v2 \<Rightarrow> Inr (v2\<lparr>attached := None, attached_sprite := None\<rparr>))"
    unfolding on_mouse_release_def by (simp only: at ix gi r1(1,2) option.case sum.case)
  show ?thesis
  proof (cases "Suc i < length (balls v)")
    case False
    with i have "i = length (balls v) - 1" "balls v \<noteq> []"
      by auto
    with i(2) have sl: "s = last (balls v)"
      by (simp add: last_conv_nth)
    with tl so have n: "constraint (sprite_objs v' s) = None"
      by simp
    let ?v2 = "v'\<lparr>attached := None, attached_sprite := None\<rparr>"
    have rel: "on_mouse_release v = Inr ?v2"
      unfolding rel0 by (simp only: n option.case sum.case)
    have "constraint (sprite_objs v' (last (balls v'))) = None"
      using n sl r1(3) by simp
    with r1(3,4,5) have "valid_chain v'"
      by (simp only: valid_chain_def simp_thms)
    then have "valid_chain ?v2"
      by simp
    moreover have "balls ?v2 = balls v" "mset (links ?v2) = mset (links v)"
        "attached ?v2 = None" "attached_sprite ?v2 = None" "center_pin ?v2 = center_pin v"
      using r1(3,6) cp1 by simp_all
    ultimately show ?thesis
      using rel by blast
  next
    case True
    from sl True have "owns_link v (balls v ! i) (balls v ! Suc i)"
      unfolding successor_links_nth by blast
    then obtain c where c: "constraint (sprite_objs v s) = Some c"
        "joint_b c = BodyOf (balls v ! Suc i)"
      unfolding i(2) by (auto simp: owns_link_def endpoints_def split: option.splits)
    from True r1(3) have i': "Suc i < length (balls v')" by simp
    have bi: "balls v' ! i = s" "balls v' ! Suc i = balls v ! Suc i"
      using i(2) r1(3) by simp_all
    from relink[OF r1(4) r1(5) i', of "ABody (BodyOf (balls v' ! Suc i))"]
    obtain pe'' v'' where r2:
        "space_remove (constraint (sprite_objs v' s)) (physics_engine v') = Inr pe''"
        "join_balls s (ABody (BodyOf (balls v ! Suc i))) (v'\<lparr>physics_engine := pe''\<rparr>) = Inr v''"
        "balls v'' = balls v'" "wf_chain v''" "successor_links v''"
        "mset (links v'') = mset (links v')"
        "\<forall>r. r \<noteq> s \<longrightarrow> sprite_objs v'' r = sprite_objs v' r"
        "attached v'' = attached v'" "attached_sprite v'' = attached_sprite v'"
      unfolding bi by blast
    from join_balls_frame[OF r2(2)] cp1 have cp2: "center_pin v'' = center_pin v"
      by simp
    let ?v2 = "v''\<lparr>attached := None, attached_sprite := None\<rparr>"
    have c': "constraint (sprite_objs v' s) = Some c"
      using so c by simp
    have rel: "on_mouse_release v = Inr ?v2"
      unfolding rel0 using r2(1,2) by (simp only: c' c(2) option.case sum.case)
    from i have ne: "balls v \<noteq> []" by auto
    from dist True i j ne have "last (balls v) \<noteq> s" "last (balls v) \<noteq> balls v ! j"
      by (auto simp: last_conv_nth nth_eq_iff_index_eq)
    then have "sprite_objs v'' (last (balls v)) = sprite_objs v (last (balls v))"
      using r1(7) r2(7) by simp
    then have "constraint (sprite_objs v'' (last (balls v''))) = None"
      using tl r1(3) r2(3) by simp
    with r2(4,5) have "valid_chain v''"
      by (simp only: valid_chain_def simp_thms)
    then have "valid_chain ?v2"
      by simp
    moreover have "balls ?v2 = balls v" "mset (links ?v2) = mset (links v)"
        "attached ?v2 = None" "attached_sprite ?v2 = None" "center_pin ?v2 = center_pin v"
      using r1(3,6) r2(3,6) cp2 by simp_all
    ultimately show ?thesis
      using rel by blast
  qed
qed

lemma run_append: "run (es @ fs) v = (case run es v of Inl e \<Rightarrow> Inl e | Inr v' \<Rightarrow> run fs v')"
  by (induction es arbitrary: v) (auto split: sum.splits)

lemma run_motions:
  "run (map (\<lambda>(a, b). MouseMotion a b) ms) v = Inr (fold (\<lambda>(a, b). on_mouse_motion a b) ms v)"
  by (induction ms arbitrary: v) (auto split: prod.splits)

lemma fold_motion_frame:
  "balls (fold (\<lambda>(a, b). on_mouse_motion a b) ms v) = balls v
   \<and> links (fold (\<lambda>(a, b). on_mouse_motion a b) ms v) = links v
   \<and> attached (fold (\<lambda>(a, b). on_mouse_motion a b) ms v) = attached v
   \<and> attached_sprite (fold (\<lambda>(a, b). on_mouse_motion a b) ms v) = attached_sprite v
   \<and> center_pin (fold (\<lambda>(a, b). on_mouse_motion a b) ms v) = center_pin v
   \<and> valid_chain (fold (\<lambda>(a, b). on_mouse_motion a b) ms v) = valid_chain v"
  by (induction ms arbitrary: v) (simp_all add: motion_frame split: prod.splits)

lemma zip_append_tl:
  "bs \<noteq> [] \<Longrightarrow> zip (bs @ [n]) (tl (bs @ [n])) = zip bs (tl bs) @ [(last bs, n)]"
proof (induction bs)
  case Nil
  then show ?case by simp
next
  case (Cons b bs)
  then show ?case by (cases bs) simp_all
qed

lemma py_getitem_last2:
  "bs \<noteq> [] \<Longrightarrow> py_getitem (bs @ [n]) (- 2) = Inr (last bs)"
proof -
  assume ne: "bs \<noteq> []"
  then obtain k where k: "length bs = Suc k"
    by (cases bs) auto
  then have "nat (int (length (bs @ [n])) + - 2) = k"
    by simp
  moreover have "(bs @ [n]) ! k = last bs"
    using ne k by (simp add: nth_append last_conv_nth)
  ultimately show ?thesis
    using k by (simp add: py_getitem_def)
qed

lemma py_getitem_last1: "py_getitem (bs @ [n]) (- 1) = Inr n"
proof -
  have "nat (int (length (bs @ [n])) + - 1) = length bs"
    by simp
  then show ?thesis
    by (simp add: py_getitem_def)
qed

lemma press_right_append:
  assumes wf: "wf_chain v" and ok: "mass_ok (current_ball_mass v)"
  shows "\<exists>v'. on_mouse_press x y MOUSE_BUTTON_RIGHT hit v = Inr v'
     \<and> balls v' = balls v @ [next_sprite v]
     \<and> links v' = links v @ [(BodyOf (last (balls v)), BodyOf (next_sprite v))]
     \<and> wf_chain v'
     \<and> (successor_links v \<longrightarrow> successor_links v')
     \<and> constraint (sprite_objs v' (next_sprite v)) = None
     \<and> (consecutive_links v \<longrightarrow> consecutive_links v')"
proof -
  let ?n = "next_sprite v" and ?l = "last (balls v)"
  let ?bs = "balls v" and ?cs = "space_constraints (physics_engine v)"
  define v1 where "v1 = v\<lparr>sprite_objs := (sprite_objs v)
         (?n := \<lparr>position = (x, y), constraint = None, traces = replicate TRACE_LENGTH (x, y)\<rparr>),
       next_sprite := Suc ?n,
       physics_engine := add_sprite ?n (current_ball_mass v) DYNAMIC (x, y) (physics_engine v),
       balls := ?bs @ [?n]\<rparr>"
  from ok have cb: "create_ball (current_ball_mass v) (x, y) v = Inr v1"
    by (simp add: create_ball_Inr mass_ok_def v1_def)
  from wf have ne: "?bs \<noteq> []" and dist: "distinct ?bs"
      and old: "\<And>r. r \<in> set ?bs \<Longrightarrow> r < ?n \<and> sprites (physics_engine v) r = Some (BodyOf r)"
      and hd: "hd ?bs = center_pin v"
    by (simp_all add: wf_chain_def)
  from ne old have l: "?l < ?n" "sprites (physics_engine v) ?l = Some (BodyOf ?l)"
    by simp_all
  have b1: "balls v1 = ?bs @ [?n]"
    by (simp add: v1_def)
  have s1: "sprites (physics_engine v1) ?l = Some (BodyOf ?l)"
      "sprites (physics_engine v1) ?n = Some (BodyOf ?n)"
    using l by (simp_all add: v1_def add_sprite_def)
  define c where "c = \<lparr>cid = next_cid v, joint_a = BodyOf ?l, joint_b = BodyOf ?n\<rparr>"
  define v' where "v' = v1\<lparr>next_cid := Suc (next_cid v1),
       sprite_objs := (sprite_objs v1)(?l := (sprite_objs v1 ?l)\<lparr>constraint := Some c\<rparr>),
       physics_engine := space_add c (physics_engine v1)\<rparr>"
  have nc: "next_cid v1 = next_cid v"
    by (simp add: v1_def)
  have jb: "join_balls ?l (ABall ?n) v1 = Inr v'"
    using s1 by (simp add: join_balls_def get_physics_object_def Let_def nc v'_def c_def)
  have pr: "on_mouse_press x y MOUSE_BUTTON_RIGHT hit v = Inr v'"
    unfolding on_mouse_press_def press_right_def
    using ne jb by (simp add: cb b1 py_getitem_last2 py_getitem_last1)
  have b': "balls v' = ?bs @ [?n]"
    using b1 by (simp add: v'_def)
  have cs': "space_constraints (physics_engine v') = ?cs @ [c]"
    by (simp add: v'_def space_add_def v1_def add_sprite_def)
  have ep: "endpoints c = (BodyOf ?l, BodyOf ?n)"
    by (simp add: c_def endpoints_def)
  have lk: "links v' = links v @ [(BodyOf ?l, BodyOf ?n)]"
    unfolding links_def cs' by (simp add: ep)
  have so: "\<And>r. r \<noteq> ?l \<Longrightarrow> r \<noteq> ?n \<Longrightarrow> sprite_objs v' r = sprite_objs v r"
    by (simp add: v'_def v1_def)
  have sl: "constraint (sprite_objs v' ?l) = Some c"
    by (simp add: v'_def)
  have sn: "constraint (sprite_objs v' ?n) = None"
    using l(1) by (simp add: v'_def v1_def)
  have eng: "sprites (physics_engine v') = (sprites (physics_engine v))(?n \<mapsto> BodyOf ?n)"
      "next_sprite v' = Suc ?n" "center_pin v' = center_pin v"
    by (simp_all add: v'_def v1_def add_sprite_def space_add_def)
  have wf': "wf_chain v'"
    unfolding wf_chain_def b' eng
    using ne dist hd old by (auto dest: less_SucI)
  have sl': "successor_links v'" if sv: "successor_links v"
    unfolding successor_links_nth
  proof (intro allI impI)
    fix i assume "Suc i < length (balls v')"
    then have i: "Suc i \<le> length ?bs"
      by (simp add: b')
    show "owns_link v' (balls v' ! i) (balls v' ! Suc i)"
    proof (cases "Suc i = length ?bs")
      case True
      then have "i = length ?bs - 1" "i < length ?bs"
        by simp_all
      with True have "(?bs @ [?n]) ! i = ?l" "(?bs @ [?n]) ! Suc i = ?n"
        using ne by (simp_all add: nth_append last_conv_nth)
      then show ?thesis
        unfolding b' owns_link_def by (simp add: sl cs' ep)
    next
      case False
      with i have i': "Suc i < length ?bs" by simp
      then have nth: "(?bs @ [?n]) ! i = ?bs ! i" "(?bs @ [?n]) ! Suc i = ?bs ! Suc i"
        by (simp_all add: nth_append)
      from i' dist ne have "?bs ! i \<noteq> ?l"
        by (auto simp: last_conv_nth nth_eq_iff_index_eq)
      moreover from i' old[of "?bs ! i"] have "?bs ! i \<noteq> ?n"
        by auto
      ultimately have same: "sprite_objs v' (?bs ! i) = sprite_objs v (?bs ! i)"
        by (rule so)
      from sv i' have "owns_link v (?bs ! i) (?bs ! Suc i)"
        by (simp add: successor_links_nth)
      then show ?thesis
        unfolding b' nth owns_link_def same cs'
        by (auto split: option.splits)
    qed
  qed
  have z: "zip (?bs @ [?n]) (tl (?bs @ [?n])) = zip ?bs (tl ?bs) @ [(?l, ?n)]"
    by (rule zip_append_tl[OF ne])
  have cl': "consecutive_links v'" if "consecutive_links v"
    using that unfolding consecutive_links_def lk b' z by simp
  show ?thesis
    using pr b' lk wf' sl' sn cl' by blast
qed

subsection \<open>The centre pin, appends and bulk creation\<close>

lemmas handler_defs = press_defs init_defs py_getitem_def space_remove_def remove_sprite_def
  on_mouse_release_def links_def endpoints_def

lemma anchor_inv_cong:
  assumes "balls v' = balls v" "center_pin v' = center_pin v" "next_sprite v' = next_sprite v"
    and "sprites (physics_engine v') = sprites (physics_engine v)"
    and "body_objs (physics_engine v') = body_objs (physics_engine v)"
    and "space_bodies (physics_engine v') = space_bodies (physics_engine v)"
  shows "anchor_inv v' = anchor_inv v"
  unfolding anchor_inv_def assms ..

lemma join_balls_anchor_inv:
  "join_balls a b v = Inr v' \<Longrightarrow> anchor_inv v' = anchor_inv v"
  by (rule anchor_inv_cong) (simp_all add: join_balls_frame)

lemma space_remove_frame:
  "space_remove co pe = Inr pe' \<Longrightarrow>
     sprites pe' = sprites pe \<and> body_objs pe' = body_objs pe \<and> space_bodies pe' = space_bodies pe"
  by (auto simp: space_remove_def split: option.splits if_splits)

lemma create_ball_anchor_inv:
  assumes "create_ball m p v = Inr v1" "anchor_inv v"
  shows "anchor_inv v1"
proof -
  from assms(1) have f: "balls v1 = balls v @ [next_sprite v]"
      "center_pin v1 = center_pin v"
      "next_sprite v1 = Suc (next_sprite v)"
      "sprites (physics_engine v1)
         = (sprites (physics_engine v))(next_sprite v \<mapsto> BodyOf (next_sprite v))"
      "body_objs (physics_engine v1)
         = (body_objs (physics_engine v))
             (BodyOf (next_sprite v) := \<lparr>mass = m, body_type = DYNAMIC, body_position = p\<rparr>)"
      "space_bodies (physics_engine v1)
         = space_bodies (physics_engine v) @ [BodyOf (next_sprite v)]"
    by (simp_all add: create_ball_Inr add_sprite_def)
  from assms(2) have d: "balls v \<noteq> []" "hd (balls v) = center_pin v" "center_pin v = 0"
      "\<forall>r \<in> set (balls v). r < next_sprite v"
      "sprites (physics_engine v) 0 = Some (BodyOf 0)"
      "\<forall>r. sprites (physics_engine v) r = None \<or> sprites (physics_engine v) r = Some (BodyOf r)"
      "BodyOf 0 \<in> set (space_bodies (physics_engine v))"
      "body_type (body_objs (physics_engine v) (BodyOf 0)) = STATIC"
      "\<forall>r. 0 < r \<longrightarrow> r < next_sprite v \<longrightarrow>
         body_type (body_objs (physics_engine v) (BodyOf r)) = DYNAMIC"
    by (simp_all add: anchor_inv_def)
  from d(1,2,3) have "0 \<in> set (balls v)"
    using hd_in_set[of "balls v"] by simp
  with d(4) have n: "0 < next_sprite v"
    by blast
  have "\<forall>r \<in> set (balls v @ [next_sprite v]). r < Suc (next_sprite v)"
    using d(4) by (auto dest: less_SucI)
  moreover have "\<forall>r. ((sprites (physics_engine v))(next_sprite v \<mapsto> BodyOf (next_sprite v))) r = None
      \<or> ((sprites (physics_engine v))(next_sprite v \<mapsto> BodyOf (next_sprite v))) r
          = Some (BodyOf r)"
    using d(6) by auto
  moreover have "\<forall>r. 0 < r \<longrightarrow> r < Suc (next_sprite v) \<longrightarrow>
      body_type (((body_objs (physics_engine v))
        (BodyOf (next_sprite v) := \<lparr>mass = m, body_type = DYNAMIC, body_position = p\<rparr>))
          (BodyOf r)) = DYNAMIC"
    using d(9) by (auto simp: less_Suc_eq)
  ultimately show ?thesis
    unfolding anchor_inv_def f using d(1,2,3,5,7,8) n by simp
qed

lemma press_left_anchor_inv:
  "press_left x y hit v = Inr v' \<Longrightarrow> anchor_inv v' = anchor_inv v"
  by (rule anchor_inv_cong)
     (auto simp: press_left_def Let_def split: list.splits sum.splits)

lemma press_right_anchor_inv:
  assumes "press_right x y v = Inr v'" "anchor_inv v"
  shows "anchor_inv v'"
proof -
  from assms(1) obtain v1 a b where
    "create_ball (current_ball_mass v) (x, y) v = Inr v1" "join_balls a b v1 = Inr v'"
    by (auto simp: press_right_def split: sum.splits)
  from join_balls_anchor_inv[OF this(2)] create_ball_anchor_inv[OF this(1) assms(2)]
  show ?thesis by simp
qed

lemma hd_remove1: "xs \<noteq> [] \<Longrightarrow> hd xs \<noteq> s \<Longrightarrow> remove1 s xs \<noteq> [] \<and> hd (remove1 s xs) = hd xs"
  by (cases xs) auto

lemma remove_clicked_anchor_inv:
  assumes rc: "remove_clicked s index v = Inr v'" and inv: "anchor_inv v" and s: "s \<noteq> hd (balls v)"
  shows "anchor_inv v'"
proof -
  have "\<exists>v2 pe. balls v2 = balls v \<and> center_pin v2 = center_pin v
      \<and> next_sprite v2 = next_sprite v
      \<and> sprites (physics_engine v2) = sprites (physics_engine v)
      \<and> body_objs (physics_engine v2) = body_objs (physics_engine v)
      \<and> space_bodies (physics_engine v2) = space_bodies (physics_engine v)
      \<and> remove_sprite s (physics_engine v2) = Inr pe
      \<and> v' = v2\<lparr>balls := remove1 s (balls v2), physics_engine := pe\<rparr>"
  proof (cases "constraint (sprite_objs v s)")
    case None
    with rc obtain pe where "remove_sprite s (physics_engine v) = Inr pe"
        "v' = v\<lparr>balls := remove1 s (balls v), physics_engine := pe\<rparr>"
      by (auto simp: remove_clicked_def Let_def split: sum.splits)
    then show ?thesis by blast
  next
    case (Some c)
    with rc obtain prev v1 pe1 pe where st:
        "join_balls prev (ABody (joint_b c)) v = Inr v1"
        "space_remove (constraint (sprite_objs v1 s)) (physics_engine v1) = Inr pe1"
        "remove_sprite s pe1 = Inr pe"
        "v' = v1\<lparr>physics_engine := pe1, balls := remove1 s (balls v1), physics_engine := pe\<rparr>"
      by (auto simp: remove_clicked_def Let_def split: sum.splits)
    let ?v2 = "v1\<lparr>physics_engine := pe1\<rparr>"
    from join_balls_frame[OF st(1), of 0] space_remove_frame[OF st(2)]
    have "balls ?v2 = balls v" "center_pin ?v2 = center_pin v" "next_sprite ?v2 = next_sprite v"
        "sprites (physics_engine ?v2) = sprites (physics_engine v)"
        "body_objs (physics_engine ?v2) = body_objs (physics_engine v)"
        "space_bodies (physics_engine ?v2) = space_bodies (physics_engine v)"
      by simp_all
    moreover have "remove_sprite s (physics_engine ?v2) = Inr pe"
      using st(3) by simp
    moreover have "v' = ?v2\<lparr>balls := remove1 s (balls ?v2), physics_engine := pe\<rparr>"
      using st(4) by simp
    ultimately show ?thesis by blast
  qed
  then obtain v2 pe where
    v2: "balls v2 = balls v" "center_pin v2 = center_pin v" "next_sprite v2 = next_sprite v"
      "sprites (physics_engine v2) = sprites (physics_engine v)"
      "body_objs (physics_engine v2) = body_objs (physics_engine v)"
      "space_bodies (physics_engine v2) = space_bodies (physics_engine v)"
    and rs: "remove_sprite s (physics_engine v2) = Inr pe"
    and v': "v' = v2\<lparr>balls := remove1 s (balls v2), physics_engine := pe\<rparr>"
    by blast
  have inv2: "anchor_inv v2"
    using inv anchor_inv_cong[OF v2] by simp
  from rs obtain bd where bd: "sprites (physics_engine v2) s = Some bd"
      "pe = (physics_engine v2)\<lparr>space_bodies := remove1 bd (space_bodies (physics_engine v2)),
              sprites := (sprites (physics_engine v2))(s := None)\<rparr>"
    by (auto simp: remove_sprite_def split: option.splits)
  from inv2 have "sprites (physics_engine v2) s = None
      \<or> sprites (physics_engine v2) s = Some (BodyOf s)"
    unfolding anchor_inv_def by blast
  with bd(1) have "bd = BodyOf s"
    by simp
  with bd(2) have pe: "sprites pe = (sprites (physics_engine v2))(s := None)"
      "space_bodies pe = remove1 (BodyOf s) (space_bodies (physics_engine v2))"
      "body_objs pe = body_objs (physics_engine v2)"
    by simp_all
  from inv2 s v2(1) have s0: "s \<noteq> 0" and ne: "balls v2 \<noteq> []" and hs: "hd (balls v2) \<noteq> s"
    by (auto simp: anchor_inv_def)
  have bs: "balls v' = remove1 s (balls v2)" "center_pin v' = center_pin v2"
      "next_sprite v' = next_sprite v2" "physics_engine v' = pe"
    by (simp_all add: v')
  show ?thesis
    unfolding anchor_inv_def bs pe
    using inv2 s0 hd_remove1[OF ne hs] notin_set_remove1[of _ "balls v2" s]
    by (auto simp: anchor_inv_def)
qed

lemma press_middle_anchor_inv:
  assumes "press_middle x y hit v = Inr v'" "anchor_inv v"
  shows "anchor_inv v'"
proof -
  let ?v1 = "v\<lparr>col_detector := (x, y)\<rparr>"
  have inv1: "anchor_inv ?v1"
    using assms(2) anchor_inv_cong[of ?v1 v] by simp
  show ?thesis
  proof (cases "filter hit (balls v)")
    case Nil
    with assms(1) inv1 show ?thesis
      by (simp add: press_middle_def Let_def)
  next
    case (Cons s rest)
    show ?thesis
    proof (cases "py_index (balls v) s")
      case (Inl e)
      with assms(1) Cons show ?thesis
        by (simp add: press_middle_def Let_def)
    next
      case (Inr index)
      show ?thesis
      proof (cases "index = 0")
        case True
        with assms(1) Cons Inr inv1 show ?thesis
          by (simp add: press_middle_def Let_def)
      next
        case False
        with assms(1) Cons Inr have rc: "remove_clicked s index ?v1 = Inr v'"
          by (simp add: press_middle_def Let_def)
        from py_index_Inr[OF Inr] False have "s \<noteq> hd (balls ?v1)"
          by auto
        from remove_clicked_anchor_inv[OF rc inv1 this] show ?thesis .
      qed
    qed
  qed
qed

lemma release_anchor_inv:
  assumes "on_mouse_release v = Inr v'"
  shows "anchor_inv v' = anchor_inv v"
  using assms
  by (intro anchor_inv_cong)
     (auto simp: on_mouse_release_def split: sum.splits option.splits
        dest!: join_balls_frame[where r = 0] space_remove_frame)

lemma handle_anchor_inv:
  assumes "handle e v = Inr v'" "anchor_inv v"
  shows "anchor_inv v'"
proof (cases e)
  case (MousePress x y button hit)
  with assms show ?thesis
    by (cases button)
       (auto simp: on_mouse_press_def press_left_anchor_inv
          dest: press_right_anchor_inv press_middle_anchor_inv)
next
  case MouseRelease
  with assms show ?thesis
    by (simp add: release_anchor_inv)
next
  case (MouseScroll d)
  with assms anchor_inv_cong[of v' v] show ?thesis
    by (auto simp: on_mouse_scroll_def)
next
  case (MouseMotion a b)
  with assms anchor_inv_cong[of v' v] show ?thesis
    by (auto simp: on_mouse_motion_def Let_def split: option.splits)
next
  case (KeyRelease k)
  with assms anchor_inv_cong[of v' v] show ?thesis
    by (auto simp: on_key_release_def split: if_splits)
qed

lemma run_anchor_inv:
  "run es v = Inr v' \<Longrightarrow> anchor_inv v \<Longrightarrow> anchor_inv v'"
  by (induction es arbitrary: v) (auto split: sum.splits dest: handle_anchor_inv)

lemma initial_anchor_inv: "anchor_inv initial_view"
proof -
  have "r < 4 \<Longrightarrow> r = 0 \<or> r = 1 \<or> r = 2 \<or> r = 3" for r :: nat
    by auto
  then show ?thesis
    unfolding anchor_inv_def
    by (auto simp: initial_view_def init_defs split: if_splits)
qed

lemma middle_click_anchor:
  assumes "balls v \<noteq> []" "hd (balls v) = center_pin v" "hit (center_pin v)"
  shows "on_mouse_press x y MOUSE_BUTTON_MIDDLE hit v = Inr (v\<lparr>col_detector := (x, y)\<rparr>)"
proof -
  from assms obtain bs where bs: "balls v = center_pin v # bs"
    by (cases "balls v") auto
  with assms(3) show ?thesis
    by (simp add: on_mouse_press_def press_middle_def Let_def)
qed

lemma anchor_view_fields:
  "balls anchor_view = [0]" "next_sprite anchor_view = 1" "center_pin anchor_view = 0"
  "links anchor_view = []" "sprites (physics_engine anchor_view) 0 = Some (BodyOf 0)"
  "current_ball_mass anchor_view = 10"
  by (simp_all add: anchor_view_def init_center_pin_def empty_view_def Ball_init_def
        add_sprite_def Let_def links_def)

lemma anchor_view_chain: "wf_chain anchor_view" "consecutive_links anchor_view"
  by (simp_all add: wf_chain_def consecutive_links_def anchor_view_fields)

lemma run_appends:
  assumes "wf_chain v" "consecutive_links v" "list_all is_append es"
    "mass_ok (current_ball_mass v)"
  shows "\<exists>v'. run es v = Inr v' \<and> wf_chain v' \<and> consecutive_links v'
     \<and> length (balls v') = length (balls v) + length es
     \<and> length (links v') = length (links v) + length es"
  using assms
proof (induction es arbitrary: v)
  case Nil
  then show ?case by simp
next
  case (Cons e es)
  from Cons.prems(3) obtain x y hit where e: "e = MousePress x y MOUSE_BUTTON_RIGHT hit"
    by (cases e) auto
  from press_right_append[OF Cons.prems(1) Cons.prems(4), of x y hit] Cons.prems(2)
  obtain v1 where v1: "on_mouse_press x y MOUSE_BUTTON_RIGHT hit v = Inr v1"
      "balls v1 = balls v @ [next_sprite v]"
      "links v1 = links v @ [(BodyOf (last (balls v)), BodyOf (next_sprite v))]"
      "wf_chain v1" "consecutive_links v1"
    by blast
  from Cons.prems(3) have es: "list_all is_append es"
    by simp
  from press_mass[OF v1(1)] Cons.prems(4) have "mass_ok (current_ball_mass v1)"
    by simp
  from Cons.IH[OF v1(4) v1(5) es this]
  obtain v' where "run es v1 = Inr v'" "wf_chain v'" "consecutive_links v'"
      "length (balls v') = length (balls v1) + length es"
      "length (links v') = length (links v1) + length es"
    by blast
  then show ?case
    using v1(1,2,3) by (simp add: e)
qed

lemma create_ball_wf:
  assumes "create_ball m p v = Inr v1" "wf_chain v"
  shows "wf_chain v1 \<and> balls v1 = balls v @ [next_sprite v] \<and> links v1 = links v
     \<and> next_sprite v1 = Suc (next_sprite v) \<and> center_pin v1 = center_pin v"
proof -
  from assms(1) have f: "balls v1 = balls v @ [next_sprite v]"
      "center_pin v1 = center_pin v"
      "next_sprite v1 = Suc (next_sprite v)"
      "sprites (physics_engine v1)
         = (sprites (physics_engine v))(next_sprite v \<mapsto> BodyOf (next_sprite v))"
      "space_constraints (physics_engine v1) = space_constraints (physics_engine v)"
    by (simp_all add: create_ball_Inr add_sprite_def)
  from assms(2) have "wf_chain v1"
    unfolding wf_chain_def f by (auto dest: less_SucI)
  then show ?thesis
    by (simp add: f links_def)
qed

lemma create_each_chain:
  "wf_chain v \<Longrightarrow> list_all mass_ok (map fst mps) \<Longrightarrow>
     \<exists>v1. create_each mps v = Inr v1 \<and> wf_chain v1
       \<and> balls v1 = balls v @ [next_sprite v..<next_sprite v + length mps]
       \<and> links v1 = links v \<and> center_pin v1 = center_pin v"
proof (induction mps arbitrary: v)
  case Nil
  then show ?case by simp
next
  case (Cons a mps)
  obtain m p where a: "a = (m, p)" by (cases a)
  with Cons.prems(2) have "mass_ok m" and rest: "list_all mass_ok (map fst mps)"
    by simp_all
  from create_ball_ok[OF this(1)] obtain v1 where cb: "create_ball m p v = Inr v1"
    by blast
  from create_ball_wf[OF cb Cons.prems(1)] have v1: "wf_chain v1"
      "balls v1 = balls v @ [next_sprite v]" "links v1 = links v"
      "next_sprite v1 = Suc (next_sprite v)" "center_pin v1 = center_pin v"
    by simp_all
  from Cons.IH[OF v1(1) rest] obtain v2 where v2: "create_each mps v1 = Inr v2" "wf_chain v2"
      "balls v2 = balls v1 @ [next_sprite v1..<next_sprite v1 + length mps]"
      "links v2 = links v1" "center_pin v2 = center_pin v1"
    by blast
  have "[next_sprite v..<next_sprite v + length (a # mps)]
      = next_sprite v # [Suc (next_sprite v)..<Suc (next_sprite v) + length mps]"
    by (subst upt_rec) simp
  with v2 v1 cb show ?case
    by (simp add: a)
qed

lemma join_balls_ok:
  assumes "sprites (physics_engine v) a = Some (BodyOf a)"
    "sprites (physics_engine v) s = Some (BodyOf s)"
  shows "\<exists>v'. join_balls a (ABall s) v = Inr v' \<and> balls v' = balls v
     \<and> center_pin v' = center_pin v
     \<and> sprites (physics_engine v') = sprites (physics_engine v)
     \<and> links v' = links v @ [(BodyOf a, BodyOf s)]"
  using assms
  by (simp add: join_balls_def get_physics_object_def Let_def space_add_def links_def
        endpoints_def)

lemma join_loop_links:
  assumes "\<forall>r \<in> set (l # bs). sprites (physics_engine v) r = Some (BodyOf r)"
    "center_pin v \<notin> set bs"
  shows "\<exists>v'. join_loop bs l v = Inr v' \<and> balls v' = balls v
     \<and> links v' = links v @ map (\<lambda>(r, s). (BodyOf r, BodyOf s)) (zip (l # bs) bs)"
  using assms
proof (induction bs arbitrary: l v)
  case Nil
  then show ?case by simp
next
  case (Cons b bs)
  from Cons.prems have sp: "sprites (physics_engine v) l = Some (BodyOf l)"
      "sprites (physics_engine v) b = Some (BodyOf b)" and nb: "b \<noteq> center_pin v"
    by auto
  from join_balls_ok[OF sp] obtain v1 where v1: "join_balls l (ABall b) v = Inr v1"
      "balls v1 = balls v" "center_pin v1 = center_pin v"
      "sprites (physics_engine v1) = sprites (physics_engine v)"
      "links v1 = links v @ [(BodyOf l, BodyOf b)]"
    by blast
  from Cons.prems have "\<forall>r \<in> set (b # bs). sprites (physics_engine v1) r = Some (BodyOf r)"
      "center_pin v1 \<notin> set bs"
    by (simp_all add: v1)
  from Cons.IH[OF this] obtain v' where "join_loop bs b v1 = Inr v'" "balls v' = balls v1"
      "links v' = links v1 @ map (\<lambda>(r, s). (BodyOf r, BodyOf s)) (zip (b # bs) bs)"
    by blast
  then show ?case
    using nb v1 by simp
qed

lemma create_balls_links:
  assumes "wf_chain v" "length masses = length positions" "list_all mass_ok masses"
  shows "\<exists>v'. create_balls masses positions v = Inr v'
     \<and> balls v' = balls v @ [next_sprite v..<next_sprite v + length masses]
     \<and> links v' = links v @ map (\<lambda>(r, s). (BodyOf r, BodyOf s)) (zip (balls v') (tl (balls v')))"
proof -
  from assms(2,3) have "list_all mass_ok (map fst (zip masses positions))"
    by simp
  from create_each_chain[OF assms(1) this] assms(2)
  obtain v1 where v1: "create_each (zip masses positions) v = Inr v1" "wf_chain v1"
      "balls v1 = balls v @ [next_sprite v..<next_sprite v + length masses]" "links v1 = links v"
    by auto
  from v1(2) obtain news where bs: "balls v1 = center_pin v1 # news"
    unfolding wf_chain_def by (cases "balls v1") auto
  with v1(2) have "\<forall>r \<in> set (center_pin v1 # news). sprites (physics_engine v1) r = Some (BodyOf r)"
      "center_pin v1 \<notin> set news"
    by (auto simp: wf_chain_def)
  from join_loop_links[OF this] obtain v' where v': "join_loop news (center_pin v1) v1 = Inr v'"
      "balls v' = balls v1"
      "links v' = links v1 @ map (\<lambda>(r, s). (BodyOf r, BodyOf s)) (zip (center_pin v1 # news) news)"
    by blast
  have "create_balls masses positions v = Inr v'"
    using assms(2) v'(1) by (simp add: create_balls_def v1(1) bs)
  moreover have "links v' = links v @ map (\<lambda>(r, s). (BodyOf r, BodyOf s)) (zip (balls v') (tl (balls v')))"
    unfolding v'(2,3) v1(4) bs by simp
  ultimately show ?thesis
    using v'(2) v1(3) by simp
qed

lemma create_balls_chain:
  assumes "length masses = length positions" "list_all mass_ok masses"
  shows "\<exists>v'. create_balls masses positions anchor_view = Inr v'
     \<and> length (balls v') = length masses + 1 \<and> length (links v') = length masses
     \<and> consecutive_links v'"
proof -
  from create_balls_links[OF anchor_view_chain(1) assms]
  obtain v' where v': "create_balls masses positions anchor_view = Inr v'"
      "balls v' = [0] @ [1..<1 + length masses]"
      "links v' = map (\<lambda>(r, s). (BodyOf r, BodyOf s)) (zip (balls v') (tl (balls v')))"
    by (auto simp: anchor_view_fields)
  have "length (balls v') = length ([0::nat] @ [1..<1 + length masses])"
    by (simp only: v'(2))
  then have n: "length (balls v') = length masses + 1"
    by (simp del: upt_Suc)
  then have "length (links v') = length masses"
    unfolding v'(3) by simp
  with v'(1,3) n show ?thesis
    by (simp add: consecutive_links_def)
qed

lemma on_update_paused:
  assumes "\<not> running v" "attached v = Some bd"
  shows "body_position (body_objs (physics_engine (on_update step v)) bd) = col_detector v
     \<and> space_constraints (physics_engine (on_update step v)) = space_constraints (physics_engine v)
     \<and> balls (on_update step v) = balls v"
  using assms by (simp add: on_update_def Let_def)

lemma press_left_frame:
  "on_mouse_press x y MOUSE_BUTTON_LEFT hit v = Inr v' \<Longrightarrow>
     balls v' = balls v \<and> sprite_objs v' = sprite_objs v \<and> physics_engine v' = physics_engine v"
  by (auto simp: on_mouse_press_def press_left_def Let_def split: list.splits sum.splits)

subsection \<open>Dragging\<close>

text \<open>
  C4. In a valid chain, a left press whose first hit is a ball other than the centre pin,
  any number of mouse motions, and the release run without an error and end with the same
  list of balls, with the same joints in the space as pairs of bodies (counted with
  multiplicity), and again in a valid chain: the joint from the ball before to the grabbed
  ball, and the joint from the grabbed ball to the one after it if there is one, are
  between the same bodies as before.
\<close>

theorem drag_release_restores_chain:
  assumes "valid_chain v" "filter hit (balls v) = s # rest" "s \<noteq> center_pin v"
  shows "\<exists>v2. run (MousePress x y MOUSE_BUTTON_LEFT hit # map (\<lambda>(a, b). MouseMotion a b) ms
                  @ [MouseRelease]) v = Inr v2
        \<and> balls v2 = balls v \<and> mset (links v2) = mset (links v)
        \<and> set (links v2) = set (links v) \<and> valid_chain v2
        \<and> attached v2 = None \<and> attached_sprite v2 = None"
proof -
  let ?v1 = "v\<lparr>col_detector := (x, y), attached := Some (BodyOf s), attached_sprite := Some s\<rparr>"
  let ?vm = "fold (\<lambda>(a, b). on_mouse_motion a b) ms ?v1"
  from assms(1) have wf: "wf_chain v"
    by (simp add: valid_chain_def)
  have p: "on_mouse_press x y MOUSE_BUTTON_LEFT hit v = Inr ?v1"
    by (rule press_left_grab[OF wf assms(2)])
  have fr: "balls ?vm = balls v" "links ?vm = links v" "attached ?vm = Some (BodyOf s)"
      "attached_sprite ?vm = Some s" "center_pin ?vm = center_pin v" "valid_chain ?vm"
    using fold_motion_frame[of ms ?v1] assms(1) by simp_all
  from assms(2) have mem: "s \<in> set (balls ?vm)"
    by (simp add: fr(1) filter_hd_mem)
  from release_restores[OF fr(6) fr(3) fr(4) mem] assms(3) fr(5)
  obtain v2 where r: "on_mouse_release ?vm = Inr v2" "balls v2 = balls ?vm"
      "mset (links v2) = mset (links ?vm)" "valid_chain v2" "attached v2 = None"
      "attached_sprite v2 = None"
    by auto
  have "run (MousePress x y MOUSE_BUTTON_LEFT hit # map (\<lambda>(a, b). MouseMotion a b) ms
          @ [MouseRelease]) v = Inr v2"
    by (simp add: p run_append run_motions r(1))
  moreover from r(3) have "set (links v2) = set (links v)"
    unfolding fr(2) by (rule mset_eq_setD)
  ultimately show ?thesis
    using r fr(1,2) by (intro exI[of _ v2]) simp
qed

text \<open>
  The theorem at the initial view: ball 2 is grabbed at (600, 300), dragged to (610, 310)
  and released.
\<close>

theorem drag_release_restores_chain_witness:
  "balls (projr (run [MousePress 600 300 MOUSE_BUTTON_LEFT ((=) 2), MouseMotion 610 310,
                      MouseRelease] initial_view)) = [0, 1, 2, 3]
   \<and> set (links (projr (run [MousePress 600 300 MOUSE_BUTTON_LEFT ((=) 2), MouseMotion 610 310,
                             MouseRelease] initial_view)))
       = {(BodyOf 0, BodyOf 1), (BodyOf 1, BodyOf 2), (BodyOf 2, BodyOf 3)}
   \<and> valid_chain (projr (run [MousePress 600 300 MOUSE_BUTTON_LEFT ((=) 2),
                               MouseMotion 610 310, MouseRelease] initial_view))"
proof -
  let ?es = "[MousePress 600 300 MOUSE_BUTTON_LEFT ((=) 2), MouseMotion 610 310, MouseRelease]"
  have f: "filter ((=) 2) (balls initial_view) = [2]"
    by (simp add: initial_view_fields)
  have n: "(2::nat) \<noteq> center_pin initial_view"
    by (simp add: initial_view_fields)
  from drag_release_restores_chain[OF initial_valid_chain f n, of 600 300 "[(610, 310)]"]
  obtain v2 where r: "run ?es initial_view = Inr v2" "balls v2 = balls initial_view"
      "set (links v2) = set (links initial_view)" "valid_chain v2"
    by auto
  have "projr (run ?es initial_view) = v2"
    by (simp only: r(1) sum.sel)
  then show ?thesis
    using r(2,3,4) by (simp add: initial_view_fields links_def endpoints_def)
qed

subsection \<open>The mass of the next ball\<close>

text \<open>
  C9. The mass for the next ball is 10 in the initial view. After a scroll event it is at
  least 1 whatever the scroll amount, positive or negative; it is at least 1 after every
  sequence of scroll events, and after every sequence of input events, from the initial
  view. A right click appends a new ball whose body has the mass configured at the click.
\<close>

theorem scroll_keeps_mass_positive:
  "current_ball_mass initial_view = 10
   \<and> 1 \<le> current_ball_mass (on_mouse_scroll scroll_y v)
   \<and> 1 \<le> current_ball_mass (fold on_mouse_scroll scrolls initial_view)
   \<and> (run es initial_view = Inr w \<longrightarrow> 1 \<le> current_ball_mass w)
   \<and> (on_mouse_press x y MOUSE_BUTTON_RIGHT hit v = Inr v' \<longrightarrow>
        balls v' = balls v @ [next_sprite v]
        \<and> sprites (physics_engine v') (next_sprite v) = Some (BodyOf (next_sprite v))
        \<and> mass (body_objs (physics_engine v') (BodyOf (next_sprite v))) = current_ball_mass v)"
proof -
  have a: "current_ball_mass initial_view = 10"
    by (rule initial_view_fields)
  have b: "1 \<le> current_ball_mass (on_mouse_scroll scroll_y v)"
    by (simp add: on_mouse_scroll_def)
  have c: "1 \<le> current_ball_mass (fold on_mouse_scroll ds u)" if "1 \<le> current_ball_mass u" for ds u
    using that by (induction ds arbitrary: u) (simp_all add: on_mouse_scroll_def)
  have d: "run es initial_view = Inr w \<longrightarrow> 1 \<le> current_ball_mass w"
    using run_mass_ge[of es initial_view w] a by simp
  show ?thesis
    using a b c[of initial_view scrolls] d press_right_mass[of x y hit v v'] by simp
qed

text \<open>
  The theorem at the initial view: scrolling by -25 and then by 3 leaves the mass 4, and
  the ball that the next right click appends has mass 4.
\<close>

theorem scroll_keeps_mass_positive_witness:
  "current_ball_mass (fold on_mouse_scroll [- 25, 3] initial_view) = 4
   \<and> 1 \<le> current_ball_mass
          (projr (run [MouseScroll (- 25), MouseScroll 3] initial_view))
   \<and> mass (body_objs (physics_engine
        (projr (on_mouse_press 700 300 MOUSE_BUTTON_RIGHT (\<lambda>r. False)
                 (fold on_mouse_scroll [- 25, 3] initial_view)))) (BodyOf 4)) = 4"
proof -
  let ?v = "fold on_mouse_scroll [- 25, 3] initial_view"
  let ?es = "[MouseScroll (- 25), MouseScroll 3]"
  have m: "current_ball_mass ?v = 4"
    by (simp add: on_mouse_scroll_def initial_view_fields)
  have n: "next_sprite ?v = 4"
    by (simp add: on_mouse_scroll_def initial_view_fields)
  have r: "run ?es initial_view = Inr (projr (run ?es initial_view))"
    by simp
  have p: "on_mouse_press 700 300 MOUSE_BUTTON_RIGHT (\<lambda>r. False) ?v
             = Inr (projr (on_mouse_press 700 300 MOUSE_BUTTON_RIGHT (\<lambda>r. False) ?v))"
    by (simp add: press_defs on_mouse_scroll_def initial_view_def init_defs py_getitem_def)
  show ?thesis
    using scroll_keeps_mass_positive[where scrolls = "[- 25, 3]" and es = ?es
        and w = "projr (run ?es initial_view)" and x = 700 and y = 300
        and hit = "\<lambda>r. False" and v = ?v
        and v' = "projr (on_mouse_press 700 300 MOUSE_BUTTON_RIGHT (\<lambda>r. False) ?v)"] m n r p
    by simp
qed

subsection \<open>The traces\<close>

text \<open>
  C10. \<^verbatim>\<open>TRACE_LENGTH\<close> is 4000 and a new ball's trace is \<^verbatim>\<open>TRACE_LENGTH\<close> copies of its
  position, whenever the constructor returns, which it does for every mass that it accepts.
  The movement callback drops the oldest entry and appends the current position,
  so a trace of length \<^verbatim>\<open>TRACE_LENGTH\<close> keeps that length. No input handler, hence no change
  of the chain's topology, touches the trace of a ball that exists, and after every
  sequence of input events every ball created so far has a trace of \<^verbatim>\<open>TRACE_LENGTH\<close>
  entries.
\<close>

theorem traces_fixed_length:
  "TRACE_LENGTH = 4000
   \<and> (Ball_init m p bt u = Inr (n, u') \<longrightarrow> traces (sprite_objs u' n) = replicate TRACE_LENGTH p)
   \<and> (mass_ok m \<longrightarrow> (\<exists>n u'. Ball_init m p bt u = Inr (n, u')))
   \<and> traces (pymunk_moved bl) = drop 1 (traces bl) @ [position bl]
   \<and> (length (traces bl) = TRACE_LENGTH \<longrightarrow> length (traces (pymunk_moved bl)) = TRACE_LENGTH)
   \<and> (handle e v = Inr v' \<longrightarrow> r < next_sprite v \<longrightarrow>
        traces (sprite_objs v' r) = traces (sprite_objs v r))
   \<and> (run es initial_view = Inr w \<longrightarrow> traces_full w)"
proof -
  have a: "Ball_init m p bt u = Inr (n, u') \<longrightarrow>
             traces (sprite_objs u' n) = replicate TRACE_LENGTH p"
    by (auto simp: Ball_init_def Let_def split: if_splits)
  have a': "mass_ok m \<longrightarrow> (\<exists>n u'. Ball_init m p bt u = Inr (n, u'))"
    by (simp add: Ball_init_def Let_def mass_ok_def)
  have b: "length (traces bl) = TRACE_LENGTH \<longrightarrow> length (traces (pymunk_moved bl)) = TRACE_LENGTH"
    by (simp add: pymunk_moved_def TRACE_LENGTH_def)
  have c: "run es initial_view = Inr w \<longrightarrow> traces_full w"
    using run_traces_full[of es initial_view w] initial_traces_full by simp
  show ?thesis
    using a a' b c handle_traces[of e v v' r]
    by (simp add: TRACE_LENGTH_def pymunk_moved_def)
qed

text \<open>
  The theorem at the initial view: a ball of mass 10 constructed at (700, 300) has a trace
  of that position alone, the callback on ball 1 keeps its trace at full length, and
  removing ball 2 with the middle button leaves the trace of ball 1 as it was.
\<close>

theorem traces_fixed_length_witness:
  "(\<exists>u'. Ball_init 10 (700, 300) DYNAMIC initial_view = Inr (4, u')
        \<and> traces (sprite_objs u' 4) = replicate TRACE_LENGTH (700, 300))
   \<and> length (traces (pymunk_moved (sprite_objs initial_view 1))) = TRACE_LENGTH
   \<and> traces (sprite_objs
        (projr (handle (MousePress 600 300 MOUSE_BUTTON_MIDDLE ((=) 2)) initial_view)) 1)
       = traces (sprite_objs initial_view 1)
   \<and> traces_full (projr (run [MousePress 600 300 MOUSE_BUTTON_MIDDLE ((=) 2)] initial_view))"
proof -
  let ?e = "MousePress 600 300 MOUSE_BUTTON_MIDDLE ((=) 2)"
  have l: "length (traces (sprite_objs initial_view 1)) = TRACE_LENGTH"
    by (simp add: initial_view_def init_defs)
  have h: "handle ?e initial_view = Inr (projr (handle ?e initial_view))"
    by (simp add: press_defs initial_view_def init_defs py_getitem_def space_remove_def
          remove_sprite_def)
  have eq: "run [?e] initial_view = handle ?e initial_view"
    by (simp split: sum.splits)
  have r: "run [?e] initial_view = Inr (projr (run [?e] initial_view))"
    by (simp only: eq) (rule h)
  have n: "(1::nat) < next_sprite initial_view"
    by (simp add: initial_view_fields)
  let ?B = "Ball_init 10 (700, 300) DYNAMIC initial_view"
  have k: "mass_ok 10"
    by (simp add: mass_ok_small)
  have i: "?B = Inr (4, snd (projr ?B))"
    by (simp add: Ball_init_def Let_def initial_view_fields)
  from traces_fixed_length[where bl = "sprite_objs initial_view 1" and e = ?e
      and v = initial_view and v' = "projr (handle ?e initial_view)" and r = 1
      and es = "[?e]" and w = "projr (run [?e] initial_view)" and m = 10
      and p = "(700, 300)" and bt = DYNAMIC and u = initial_view and n = 4
      and u' = "snd (projr ?B)"] l h r n k i
  have "traces (sprite_objs (snd (projr ?B)) 4) = replicate TRACE_LENGTH (700, 300)"
      "length (traces (pymunk_moved (sprite_objs initial_view 1))) = TRACE_LENGTH"
      "traces (sprite_objs (projr (handle ?e initial_view)) 1)
         = traces (sprite_objs initial_view 1)"
      "traces_full (projr (run [?e] initial_view))"
    by blast+
  with i show ?thesis
    by blast
qed

subsection \<open>Removing a ball\<close>

text \<open>
  C1. The claim asks that removing an interior ball destroys both joints at the removed
  ball. The handler joins the ball before to the ball after and takes the removed ball's
  own joint (to its successor) out of the space, but the joint from the ball before to the
  removed ball is only overwritten in the sprite, never removed from the space. In the
  initial chain, a middle click on ball 2 leaves the balls 0, 1, 3 and three joints in the
  space: 0-1, the stale 1-2, and the bridge 1-3.
\<close>

theorem middle_click_interior_leaves_predecessor_joint:
  "\<exists>v'. on_mouse_press 600 300 MOUSE_BUTTON_MIDDLE ((=) 2) initial_view = Inr v'
      \<and> balls v' = [0, 1, 3]
      \<and> links v' = [(BodyOf 0, BodyOf 1), (BodyOf 1, BodyOf 2), (BodyOf 1, BodyOf 3)]
      \<and> sprites (physics_engine v') 2 = None
      \<and> space_bodies (physics_engine v') = [BodyOf 0, BodyOf 1, BodyOf 3]"
  by (simp add: initial_view_def handler_defs)

text \<open>
  C7. A middle click on the last ball creates no joint, and it removes none either: the
  joint from the ball before to the removed ball stays in the space, and the ball before
  still holds it. In the initial chain, a middle click on ball 3 leaves the balls 0, 1, 2
  and the three joints 0-1, 1-2, 2-3, the last one to the body of the removed ball.
\<close>

theorem middle_click_tail_leaves_predecessor_joint:
  "\<exists>v'. on_mouse_press 650 300 MOUSE_BUTTON_MIDDLE ((=) 3) initial_view = Inr v'
      \<and> balls v' = [0, 1, 2]
      \<and> links v' = [(BodyOf 0, BodyOf 1), (BodyOf 1, BodyOf 2), (BodyOf 2, BodyOf 3)]
      \<and> map_option endpoints (constraint (sprite_objs v' 2)) = Some (BodyOf 2, BodyOf 3)
      \<and> sprites (physics_engine v') 3 = None
      \<and> space_bodies (physics_engine v') = [BodyOf 0, BodyOf 1, BodyOf 2]"
  by (simp add: initial_view_def handler_defs)

subsection \<open>Grabbing the centre pin\<close>

text \<open>
  C5. The left press does not check that the clicked sprite is not the centre pin, as the
  middle press does. In the initial view a left press on the centre pin attaches it, a
  mouse motion then moves it, and the release looks up index 0, takes the last ball as the
  one before, and passes that ball's \<^verbatim>\<open>constraint\<close>, which is \<^verbatim>\<open>None\<close>, to
  \<^verbatim>\<open>space.remove\<close>: the handler ends in an exception.
\<close>

theorem grab_anchor_release_fails:
  "\<exists>v'. on_mouse_press 400 300 MOUSE_BUTTON_LEFT ((=) 0) initial_view = Inr v'
      \<and> attached_sprite v' = Some (center_pin v')
      \<and> position (sprite_objs (on_mouse_motion 100 100 v') (center_pin v')) = (100, 100)
      \<and> on_mouse_release v' = Inl UnsupportedType"
  by (simp add: initial_view_def handler_defs on_mouse_motion_def)

subsection \<open>The start of a drag\<close>

text \<open>
  Against C2 as stated: in the initial view, after the left press on ball 1 the joint from
  the centre pin to ball 1 is still in the space, and it still is after a mouse motion.
\<close>

theorem left_press_keeps_predecessor_joint:
  "\<exists>v'. on_mouse_press 500 300 MOUSE_BUTTON_LEFT ((=) 1) initial_view = Inr v'
      \<and> attached_sprite v' = Some 1
      \<and> links v' = [(BodyOf 0, BodyOf 1), (BodyOf 1, BodyOf 2), (BodyOf 2, BodyOf 3)]
      \<and> links (on_mouse_motion 510 310 v')
          = [(BodyOf 0, BodyOf 1), (BodyOf 1, BodyOf 2), (BodyOf 2, BodyOf 3)]"
  by (simp add: initial_view_def handler_defs on_mouse_motion_def)

text \<open>
  C2, amended. A left press that returns leaves the list of balls, every sprite and the
  whole physics engine, all joints included, as they were; in a well-formed chain a press
  whose first hit is the ball \<open>s\<close> returns and records the body and the sprite of \<open>s\<close> as
  attached. During the drag a mouse motion sets the position of the attached sprite to the
  cursor and changes no joint, and an update with the simulation paused sets the position
  of the attached body to the detector's and changes no joint.
\<close>

theorem left_press_destroys_no_joint:
  "(on_mouse_press x y MOUSE_BUTTON_LEFT hit v = Inr v' \<longrightarrow>
      balls v' = balls v \<and> sprite_objs v' = sprite_objs v
      \<and> physics_engine v' = physics_engine v)
   \<and> (wf_chain v \<longrightarrow> filter hit (balls v) = s # rest \<longrightarrow>
        on_mouse_press x y MOUSE_BUTTON_LEFT hit v
          = Inr (v\<lparr>col_detector := (x, y), attached := Some (BodyOf s),
                   attached_sprite := Some s\<rparr>))
   \<and> (attached_sprite w = Some s \<longrightarrow> position (sprite_objs (on_mouse_motion a b w) s) = (a, b))
   \<and> balls (on_mouse_motion a b w) = balls w
   \<and> physics_engine (on_mouse_motion a b w) = physics_engine w
   \<and> constraint (sprite_objs (on_mouse_motion a b w) r) = constraint (sprite_objs w r)
   \<and> (\<not> running w \<longrightarrow> attached w = Some bd \<longrightarrow>
        body_position (body_objs (physics_engine (on_update step w)) bd) = col_detector w
        \<and> space_constraints (physics_engine (on_update step w))
            = space_constraints (physics_engine w)
        \<and> balls (on_update step w) = balls w)"
proof -
  have m: "(attached_sprite w = Some s \<longrightarrow>
              position (sprite_objs (on_mouse_motion a b w) s) = (a, b))
      \<and> balls (on_mouse_motion a b w) = balls w
      \<and> physics_engine (on_mouse_motion a b w) = physics_engine w
      \<and> constraint (sprite_objs (on_mouse_motion a b w) r) = constraint (sprite_objs w r)"
    by (simp add: on_mouse_motion_def Let_def split: option.splits)
  show ?thesis
    using press_left_frame[of x y hit v v'] press_left_grab[of v hit s rest x y] m
      on_update_paused[of w bd step]
    by blast
qed

text \<open>
  The theorem at the initial view: ball 1 is grabbed at (500, 300) and moved to (510, 310).
\<close>

theorem left_press_destroys_no_joint_witness:
  "on_mouse_press 500 300 MOUSE_BUTTON_LEFT ((=) 1) initial_view
     = Inr (initial_view\<lparr>col_detector := (500, 300), attached := Some (BodyOf 1),
              attached_sprite := Some 1\<rparr>)
   \<and> position (sprite_objs (on_mouse_motion 510 310
        (initial_view\<lparr>col_detector := (500, 300), attached := Some (BodyOf 1),
           attached_sprite := Some 1\<rparr>)) 1) = (510, 310)
   \<and> body_position (body_objs (physics_engine (on_update (\<lambda>u. u)
        (initial_view\<lparr>col_detector := (500, 300), attached := Some (BodyOf 1),
           attached_sprite := Some 1\<rparr>))) (BodyOf 1)) = (500, 300)"
proof -
  let ?w = "initial_view\<lparr>col_detector := (500, 300), attached := Some (BodyOf 1),
              attached_sprite := Some 1\<rparr>"
  have wf: "wf_chain initial_view"
    using initial_valid_chain by (simp add: valid_chain_def)
  have f: "filter ((=) 1) (balls initial_view) = [1]"
    by (simp add: initial_view_fields)
  have a: "attached_sprite ?w = Some 1" "attached ?w = Some (BodyOf 1)"
      "col_detector ?w = (500, 300)"
    by simp_all
  have nr: "\<not> running ?w"
    by (simp add: initial_view_def init_defs)
  show ?thesis
    using left_press_destroys_no_joint[where v = initial_view and hit = "(=) 1" and s = 1
        and rest = "[]" and x = 500 and y = 300 and w = ?w and a = 510 and b = 310
        and bd = "BodyOf 1" and step = "\<lambda>u. u" and v' = ?w and r = 1] wf f a nr
    by simp
qed

subsection \<open>Who holds a joint\<close>

text \<open>
  Against C3 as stated: in the initial view the ball at index 1 holds the joint from its
  own body to the body of ball 2, not the joint from the centre pin, and the ball at index
  3 holds no joint.
\<close>

theorem initial_constraints_point_forward:
  "map (\<lambda>r. map_option endpoints (constraint (sprite_objs initial_view r))) (balls initial_view)
     = [Some (BodyOf 0, BodyOf 1), Some (BodyOf 1, BodyOf 2), Some (BodyOf 2, BodyOf 3), None]"
  by (simp add: initial_view_def handler_defs)

text \<open>
  C3, amended. In a valid chain the sprite at index \<open>i\<close> that has a successor holds the
  joint from its own body to the body of the sprite at index \<open>i + 1\<close>, a joint of the
  space, and the last sprite holds none: a joint is held by the earlier of its two ends.
  The initial view is a valid chain, and a right click in a well-formed chain whose balls
  but the last hold their joints, with a configured mass that the constructor accepts,
  returns a valid chain with the new ball at the end.
\<close>

theorem joints_held_by_earlier_ball:
  "valid_chain initial_view
   \<and> (valid_chain v \<longrightarrow> Suc i < length (balls v) \<longrightarrow>
        (\<exists>c. constraint (sprite_objs v (balls v ! i)) = Some c
           \<and> joint_a c = BodyOf (balls v ! i) \<and> joint_b c = BodyOf (balls v ! Suc i)
           \<and> c \<in> set (space_constraints (physics_engine v))))
   \<and> (valid_chain v \<longrightarrow> constraint (sprite_objs v (last (balls v))) = None)
   \<and> (wf_chain v \<longrightarrow> successor_links v \<longrightarrow> mass_ok (current_ball_mass v) \<longrightarrow>
        (\<exists>v'. on_mouse_press x y MOUSE_BUTTON_RIGHT hit v = Inr v'
           \<and> balls v' = balls v @ [next_sprite v] \<and> valid_chain v'))"
proof -
  have a: "\<exists>c. constraint (sprite_objs v (balls v ! i)) = Some c
           \<and> joint_a c = BodyOf (balls v ! i) \<and> joint_b c = BodyOf (balls v ! Suc i)
           \<and> c \<in> set (space_constraints (physics_engine v))"
    if "valid_chain v" "Suc i < length (balls v)"
  proof -
    from that have "owns_link v (balls v ! i) (balls v ! Suc i)"
      by (simp add: valid_chain_def successor_links_nth)
    then show ?thesis
      by (auto simp: owns_link_def endpoints_def split: option.splits)
  qed
  have b: "\<exists>v'. on_mouse_press x y MOUSE_BUTTON_RIGHT hit v = Inr v'
           \<and> balls v' = balls v @ [next_sprite v] \<and> valid_chain v'"
    if wf: "wf_chain v" and sl: "successor_links v" and ok: "mass_ok (current_ball_mass v)"
  proof -
    from press_right_append[OF wf ok, of x y hit] sl
    obtain v' where v': "on_mouse_press x y MOUSE_BUTTON_RIGHT hit v = Inr v'"
        "balls v' = balls v @ [next_sprite v]" "wf_chain v'" "successor_links v'"
        "constraint (sprite_objs v' (next_sprite v)) = None"
      by blast
    then have "valid_chain v'"
      by (simp add: valid_chain_def)
    with v'(1,2) show ?thesis by blast
  qed
  show ?thesis
    using initial_valid_chain a b by (auto simp: valid_chain_def)
qed

text \<open>
  The theorem at the initial view: ball 1 holds the joint to ball 2, ball 3 holds none, and
  after a right click at (700, 300) the five balls form a valid chain.
\<close>

theorem joints_held_by_earlier_ball_witness:
  "map_option endpoints (constraint (sprite_objs initial_view 1)) = Some (BodyOf 1, BodyOf 2)
   \<and> constraint (sprite_objs initial_view 3) = None
   \<and> balls (projr (on_mouse_press 700 300 MOUSE_BUTTON_RIGHT (\<lambda>r. False) initial_view))
       = [0, 1, 2, 3, 4]
   \<and> valid_chain (projr (on_mouse_press 700 300 MOUSE_BUTTON_RIGHT (\<lambda>r. False) initial_view))"
proof -
  note t = joints_held_by_earlier_ball[where v = initial_view and i = 1 and x = 700
      and y = 300 and hit = "\<lambda>r. False"]
  have vc: "valid_chain initial_view"
    using t by blast
  then have wf: "wf_chain initial_view" and sl: "successor_links initial_view"
    by (simp_all add: valid_chain_def)
  from t vc obtain c where c: "constraint (sprite_objs initial_view (balls initial_view ! 1)) = Some c"
      "joint_a c = BodyOf (balls initial_view ! 1)" "joint_b c = BodyOf (balls initial_view ! Suc 1)"
    by (auto simp: initial_view_fields)
  from t vc have l: "constraint (sprite_objs initial_view (last (balls initial_view))) = None"
    by blast
  have "mass_ok (current_ball_mass initial_view)"
    by (simp add: initial_view_fields mass_ok_small)
  with t wf sl obtain v' where v': "on_mouse_press 700 300 MOUSE_BUTTON_RIGHT (\<lambda>r. False) initial_view
        = Inr v'" "balls v' = balls initial_view @ [next_sprite initial_view]" "valid_chain v'"
    by blast
  show ?thesis
    using c l v' by (simp add: initial_view_fields endpoints_def)
qed

subsection \<open>Appending\<close>

text \<open>
  Against C6 as stated: \<^verbatim>\<open>create_balls\<close> with one mass and one position in the initial view
  appends ball 4 and then joins every pair of neighbours of the whole list again, so the
  space holds seven joints, not four; \<^verbatim>\<open>create_balls\<close> with the mass -1 in the view with
  the centre pin alone ends in the \<^verbatim>\<open>ValueError\<close> of \<^verbatim>\<open>math.sqrt\<close>; and after a scroll by
  \<open>2 ^ 1024\<close> a right click ends in the \<^verbatim>\<open>OverflowError\<close> of the conversion to a float.
\<close>

theorem bulk_creation_rejoins_every_pair:
  "(\<exists>v'. create_balls [10] [(700, 300)] initial_view = Inr v'
      \<and> balls v' = [0, 1, 2, 3, 4]
      \<and> links v' = [(BodyOf 0, BodyOf 1), (BodyOf 1, BodyOf 2), (BodyOf 2, BodyOf 3),
                    (BodyOf 0, BodyOf 1), (BodyOf 1, BodyOf 2), (BodyOf 2, BodyOf 3),
                    (BodyOf 3, BodyOf 4)])
   \<and> create_balls [- 1] [(500, 300)] anchor_view = Inl ValueError
   \<and> run [MouseScroll (2 ^ 1024), MousePress 700 300 MOUSE_BUTTON_RIGHT (\<lambda>r. False)]
         initial_view = Inl OverflowError"
proof -
  have a: "\<exists>v'. create_balls [10] [(700, 300)] initial_view = Inr v'
      \<and> balls v' = [0, 1, 2, 3, 4]
      \<and> links v' = [(BodyOf 0, BodyOf 1), (BodyOf 1, BodyOf 2), (BodyOf 2, BodyOf 3),
                    (BodyOf 0, BodyOf 1), (BodyOf 1, BodyOf 2), (BodyOf 2, BodyOf 3),
                    (BodyOf 3, BodyOf 4)]"
    by (simp add: initial_view_def handler_defs)
  have b: "create_balls [- 1] [(500, 300)] anchor_view = Inl ValueError"
    by (simp add: create_balls_def create_ball_def Ball_init_def)
  have "float_overflows (max (10 + 2 ^ 1024) 1)"
    by (simp add: float_overflows_def)
  then have c: "run [MouseScroll (2 ^ 1024), MousePress 700 300 MOUSE_BUTTON_RIGHT (\<lambda>r. False)]
      initial_view = Inl OverflowError"
    by (simp add: on_mouse_scroll_def on_mouse_press_def press_right_def create_ball_def
          Ball_init_def initial_view_fields)
  from a b c show ?thesis
    by (intro conjI)
qed

text \<open>
  C6, amended. A right click in a well-formed chain, with a configured mass that the
  constructor accepts, puts the new ball at the end of the list and adds one joint to the
  space, from the body of the previous last ball to the body of the new one; in the view
  that holds the centre pin alone that joint starts at the centre pin, and \<open>N\<close> right
  clicks from that view return a list of \<open>N + 1\<close> balls and \<open>N\<close> joints, which are exactly
  the joints between neighbours of the list. \<^verbatim>\<open>create_balls\<close> with \<open>N\<close> accepted masses and
  \<open>N\<close> positions in a well-formed chain puts the \<open>N\<close> new balls at the end of the list in
  their order and then adds one joint for every pair of neighbours of the whole list, old
  pairs included; in the view that holds the centre pin alone this gives \<open>N + 1\<close> balls
  and \<open>N\<close> joints, exactly the joints between neighbours of the list.
\<close>

theorem append_joins_previous_tail:
  "(wf_chain v \<longrightarrow> mass_ok (current_ball_mass v) \<longrightarrow>
      (\<exists>v'. on_mouse_press x y MOUSE_BUTTON_RIGHT hit v = Inr v'
         \<and> balls v' = balls v @ [next_sprite v]
         \<and> links v' = links v @ [(BodyOf (last (balls v)), BodyOf (next_sprite v))]))
   \<and> (\<exists>v'. on_mouse_press x y MOUSE_BUTTON_RIGHT hit anchor_view = Inr v'
         \<and> balls v' = [center_pin anchor_view, next_sprite anchor_view]
         \<and> links v' = [(BodyOf (center_pin anchor_view), BodyOf (next_sprite anchor_view))])
   \<and> (list_all is_append es \<longrightarrow>
        (\<exists>v'. run es anchor_view = Inr v' \<and> length (balls v') = length es + 1
           \<and> length (links v') = length es \<and> consecutive_links v'))
   \<and> (wf_chain v \<longrightarrow> length masses = length positions \<longrightarrow> list_all mass_ok masses \<longrightarrow>
        (\<exists>v'. create_balls masses positions v = Inr v'
           \<and> balls v' = balls v @ [next_sprite v..<next_sprite v + length masses]
           \<and> links v' = links v @ map (\<lambda>(r, s). (BodyOf r, BodyOf s))
                                    (zip (balls v') (tl (balls v')))))
   \<and> (length ms = length ps \<longrightarrow> list_all mass_ok ms \<longrightarrow>
        (\<exists>v'. create_balls ms ps anchor_view = Inr v'
           \<and> length (balls v') = length ms + 1 \<and> length (links v') = length ms
           \<and> consecutive_links v'))"
proof -
  have mk: "mass_ok (current_ball_mass anchor_view)"
    by (simp add: anchor_view_fields mass_ok_small)
  have a: "\<exists>v'. on_mouse_press x y MOUSE_BUTTON_RIGHT hit v = Inr v'
         \<and> balls v' = balls v @ [next_sprite v]
         \<and> links v' = links v @ [(BodyOf (last (balls v)), BodyOf (next_sprite v))]"
    if "wf_chain v" "mass_ok (current_ball_mass v)" for v
    using press_right_append[OF that, of x y hit] by blast
  have b: "\<exists>v'. on_mouse_press x y MOUSE_BUTTON_RIGHT hit anchor_view = Inr v'
         \<and> balls v' = [center_pin anchor_view, next_sprite anchor_view]
         \<and> links v' = [(BodyOf (center_pin anchor_view), BodyOf (next_sprite anchor_view))]"
    using a[OF anchor_view_chain(1) mk] by (simp add: anchor_view_fields)
  have c: "list_all is_append es \<longrightarrow>
        (\<exists>v'. run es anchor_view = Inr v' \<and> length (balls v') = length es + 1
           \<and> length (links v') = length es \<and> consecutive_links v')"
  proof
    assume "list_all is_append es"
    from run_appends[OF anchor_view_chain this mk]
    show "\<exists>v'. run es anchor_view = Inr v' \<and> length (balls v') = length es + 1
           \<and> length (links v') = length es \<and> consecutive_links v'"
      by (auto simp: anchor_view_fields)
  qed
  have d: "wf_chain v \<longrightarrow> length masses = length positions \<longrightarrow> list_all mass_ok masses \<longrightarrow>
        (\<exists>v'. create_balls masses positions v = Inr v'
           \<and> balls v' = balls v @ [next_sprite v..<next_sprite v + length masses]
           \<and> links v' = links v @ map (\<lambda>(r, s). (BodyOf r, BodyOf s))
                                    (zip (balls v') (tl (balls v'))))"
    using create_balls_links[of v masses positions] by (intro impI)
  have e: "length ms = length ps \<longrightarrow> list_all mass_ok ms \<longrightarrow>
        (\<exists>v'. create_balls ms ps anchor_view = Inr v'
           \<and> length (balls v') = length ms + 1 \<and> length (links v') = length ms
           \<and> consecutive_links v')"
    using create_balls_chain[of ms ps] by (intro impI)
  have a': "wf_chain v \<longrightarrow> mass_ok (current_ball_mass v) \<longrightarrow>
      (\<exists>v'. on_mouse_press x y MOUSE_BUTTON_RIGHT hit v = Inr v'
         \<and> balls v' = balls v @ [next_sprite v]
         \<and> links v' = links v @ [(BodyOf (last (balls v)), BodyOf (next_sprite v))])"
    using a[of v] by (intro impI)
  from a' b c d e show ?thesis
    by (intro conjI)
qed

text \<open>
  The theorem at the initial view and at the view with the centre pin alone: a right click
  in the initial view appends ball 4 and the joint 3-4; two right clicks on the centre pin
  alone give three balls and two joints; \<^verbatim>\<open>create_balls\<close> with one mass in the initial view
  appends ball 4 and leaves seven joints; \<^verbatim>\<open>create_balls\<close> with the three masses and
  positions of \<^verbatim>\<open>__init__\<close> on the centre pin alone gives four balls and three joints.
\<close>

theorem append_joins_previous_tail_witness:
  "balls (projr (on_mouse_press 700 300 MOUSE_BUTTON_RIGHT (\<lambda>r. False) initial_view))
     = [0, 1, 2, 3, 4]
   \<and> links (projr (on_mouse_press 700 300 MOUSE_BUTTON_RIGHT (\<lambda>r. False) initial_view))
     = [(BodyOf 0, BodyOf 1), (BodyOf 1, BodyOf 2), (BodyOf 2, BodyOf 3), (BodyOf 3, BodyOf 4)]
   \<and> length (balls (projr (run [MousePress 500 300 MOUSE_BUTTON_RIGHT (\<lambda>r. False),
                                 MousePress 600 300 MOUSE_BUTTON_RIGHT (\<lambda>r. False)]
                                anchor_view))) = 3
   \<and> length (links (projr (run [MousePress 500 300 MOUSE_BUTTON_RIGHT (\<lambda>r. False),
                                 MousePress 600 300 MOUSE_BUTTON_RIGHT (\<lambda>r. False)]
                                anchor_view))) = 2
   \<and> balls (projr (create_balls [12] [(700, 300)] initial_view)) = [0, 1, 2, 3, 4]
   \<and> length (links (projr (create_balls [12] [(700, 300)] initial_view))) = 7
   \<and> length (balls (projr (create_balls [10, 15, 20] [(500, 300), (600, 300), (650, 300)]
                             anchor_view))) = 4
   \<and> consecutive_links (projr (create_balls [10, 15, 20] [(500, 300), (600, 300), (650, 300)]
                                 anchor_view))"
proof -
  let ?es = "[MousePress 500 300 MOUSE_BUTTON_RIGHT (\<lambda>r. False),
              MousePress 600 300 MOUSE_BUTTON_RIGHT (\<lambda>r. False)]"
  let ?ms = "[10, 15, 20] :: int list"
  let ?ps = "[(500, 300), (600, 300), (650, 300)] :: pos list"
  note t = append_joins_previous_tail[where v = initial_view and x = 700 and y = 300
      and hit = "\<lambda>r. False" and es = ?es and masses = "[12]" and positions = "[(700, 300)]"
      and ms = ?ms and ps = ?ps]
  have wf: "wf_chain initial_view"
    using initial_valid_chain by (simp add: valid_chain_def)
  have mk: "mass_ok (current_ball_mass initial_view)"
    by (simp add: initial_view_fields mass_ok_small)
  from t wf mk obtain v1 where v1:
      "on_mouse_press 700 300 MOUSE_BUTTON_RIGHT (\<lambda>r. False) initial_view = Inr v1"
      "balls v1 = balls initial_view @ [next_sprite initial_view]"
      "links v1 = links initial_view
         @ [(BodyOf (last (balls initial_view)), BodyOf (next_sprite initial_view))]"
    by blast
  have "list_all is_append ?es"
    by simp
  with t obtain v2 where v2: "run ?es anchor_view = Inr v2" "length (balls v2) = length ?es + 1"
      "length (links v2) = length ?es"
    by blast
  have one: "length [12::int] = length [(700, 300) :: pos]" "list_all mass_ok [12]"
    by (simp_all add: mass_ok_small)
  with t wf obtain v4 where v4: "create_balls [12] [(700, 300)] initial_view = Inr v4"
      "balls v4 = balls initial_view
         @ [next_sprite initial_view..<next_sprite initial_view + length [12::int]]"
      "links v4 = links initial_view
         @ map (\<lambda>(r, s). (BodyOf r, BodyOf s)) (zip (balls v4) (tl (balls v4)))"
    by blast
  have "length ?ms = length ?ps" "list_all mass_ok ?ms"
    by (simp_all add: mass_ok_small)
  with t obtain v3 where v3: "create_balls ?ms ?ps anchor_view = Inr v3"
      "length (balls v3) = length ?ms + 1" "consecutive_links v3"
    by blast
  have p: "projr (on_mouse_press 700 300 MOUSE_BUTTON_RIGHT (\<lambda>r. False) initial_view) = v1"
      "projr (run ?es anchor_view) = v2" "projr (create_balls ?ms ?ps anchor_view) = v3"
      "projr (create_balls [12] [(700, 300)] initial_view) = v4"
    by (simp_all only: v1(1) v2(1) v3(1) v4(1) sum.sel)
  from v4(2) have b4: "balls v4 = [0, 1, 2, 3, 4]"
    by (simp add: initial_view_fields)
  have l4: "length (links v4) = 7"
    unfolding v4(3) b4 by (simp add: initial_view_fields links_def)
  show ?thesis
    unfolding p using v1(2,3) v2(2,3) v3(2,3) b4 l4
    by (simp add: initial_view_fields links_def endpoints_def)
qed

subsection \<open>The centre pin\<close>

text \<open>
  What holds of the centre pin. In the initial view and in every view that a sequence of
  input events reaches from it, the centre pin created in \<^verbatim>\<open>__init__\<close> is the first ball of
  the list, the engine knows it, its body is in the space and is static, and the body of
  every other ball of the list is dynamic: the centre pin is never removed and no second
  static body appears. A middle click that hits the centre pin finds index 0 and returns
  the view with nothing but the detector position changed: the list and the physics engine
  are as before.
\<close>

lemma anchor_first_and_static:
  "(run es initial_view = Inr w \<longrightarrow>
      balls w \<noteq> [] \<and> balls w ! 0 = center_pin w \<and> center_pin w = center_pin initial_view
      \<and> sprites (physics_engine w) (center_pin w) = Some (BodyOf (center_pin w))
      \<and> BodyOf (center_pin w) \<in> set (space_bodies (physics_engine w))
      \<and> body_type (body_objs (physics_engine w) (BodyOf (center_pin w))) = STATIC
      \<and> (\<forall>r \<in> set (balls w). r \<noteq> center_pin w \<longrightarrow>
            body_type (body_objs (physics_engine w) (BodyOf r)) = DYNAMIC))
   \<and> (run es initial_view = Inr w \<longrightarrow> hit (center_pin w) \<longrightarrow>
        on_mouse_press x y MOUSE_BUTTON_MIDDLE hit w = Inr (w\<lparr>col_detector := (x, y)\<rparr>))"
proof -
  have inv: "anchor_inv w" if "run es initial_view = Inr w"
    using run_anchor_inv[OF that initial_anchor_inv] .
  have a: "balls w \<noteq> [] \<and> balls w ! 0 = center_pin w \<and> center_pin w = center_pin initial_view
      \<and> sprites (physics_engine w) (center_pin w) = Some (BodyOf (center_pin w))
      \<and> BodyOf (center_pin w) \<in> set (space_bodies (physics_engine w))
      \<and> body_type (body_objs (physics_engine w) (BodyOf (center_pin w))) = STATIC
      \<and> (\<forall>r \<in> set (balls w). r \<noteq> center_pin w \<longrightarrow>
            body_type (body_objs (physics_engine w) (BodyOf r)) = DYNAMIC)"
    if r: "run es initial_view = Inr w"
  proof -
    from inv[OF r] have d: "balls w \<noteq> []" "hd (balls w) = center_pin w" "center_pin w = 0"
        "\<forall>r \<in> set (balls w). r < next_sprite w"
        "sprites (physics_engine w) 0 = Some (BodyOf 0)"
        "BodyOf 0 \<in> set (space_bodies (physics_engine w))"
        "body_type (body_objs (physics_engine w) (BodyOf 0)) = STATIC"
        "\<forall>r. 0 < r \<longrightarrow> r < next_sprite w \<longrightarrow>
           body_type (body_objs (physics_engine w) (BodyOf r)) = DYNAMIC"
      by (simp_all add: anchor_inv_def)
    from d(1,2) have "balls w ! 0 = center_pin w"
      by (simp add: hd_conv_nth)
    moreover from d(4,8) have "\<forall>r \<in> set (balls w). r \<noteq> 0 \<longrightarrow>
        body_type (body_objs (physics_engine w) (BodyOf r)) = DYNAMIC"
      by auto
    ultimately show ?thesis
      using d(1,3,5,6,7) by (simp add: initial_view_fields)
  qed
  have b: "on_mouse_press x y MOUSE_BUTTON_MIDDLE hit w = Inr (w\<lparr>col_detector := (x, y)\<rparr>)"
    if r: "run es initial_view = Inr w" and h: "hit (center_pin w)"
  proof -
    from inv[OF r] have "balls w \<noteq> []" "hd (balls w) = center_pin w"
      by (simp_all add: anchor_inv_def)
    then show ?thesis
      using h by (rule middle_click_anchor)
  qed
  show ?thesis
    using a b by blast
qed

text \<open>
  C8. The centre pin is not immovable. The left press does not check that the clicked
  sprite is not the centre pin, as the middle press does: in the initial view a left press
  on the centre pin, which stands at (400, 300), attaches its body; the mouse motion to
  (100, 100) moves its sprite there and the next update, with the simulation paused, moves
  its body there, a body that is static all along.
\<close>

theorem grab_anchor_moves_it:
  "\<exists>v'. on_mouse_press 400 300 MOUSE_BUTTON_LEFT ((=) 0) initial_view = Inr v'
      \<and> center_pin v' = 0 \<and> balls v' ! 0 = 0
      \<and> attached v' = Some (BodyOf 0) \<and> attached_sprite v' = Some 0
      \<and> position (sprite_objs v' 0) = (400, 300)
      \<and> body_position (body_objs (physics_engine v') (BodyOf 0)) = (400, 300)
      \<and> body_type (body_objs (physics_engine v') (BodyOf 0)) = STATIC
      \<and> position (sprite_objs (on_update (\<lambda>u. u) (on_mouse_motion 100 100 v')) 0) = (100, 100)
      \<and> body_position (body_objs (physics_engine
           (on_update (\<lambda>u. u) (on_mouse_motion 100 100 v'))) (BodyOf 0)) = (100, 100)
      \<and> body_type (body_objs (physics_engine
           (on_update (\<lambda>u. u) (on_mouse_motion 100 100 v'))) (BodyOf 0)) = STATIC"
  by (simp add: initial_view_def handler_defs on_mouse_motion_def on_update_def
        WINDOW_WIDTH_def WINDOW_HEIGHT_def)

end
